theory Spec2Isabelle
  imports Complex_Main "HOL-Library.Multiset"
begin

section \<open>Python numbers\<close>

text \<open>
  The calculator of \<^verbatim>\<open>src/main.py\<close> computes with Python numbers: integers of any
  size and floats, which are IEEE 754 binary64 values. Both are modelled with the
  behaviour the interpreter gives them: floats round to the nearest representable
  value, overflow to an infinity, have a NaN, and some operations raise.
\<close>

subsection \<open>Exceptions\<close>

text \<open>An exception is its class and the text that \<^verbatim>\<open>str(e)\<close> gives.\<close>

datatype py_error =
    OverflowError string
  | ValueError string
  | ZeroDivisionError string
  | TypeError string
  | KeyError string
  | OSError string
  | ParserError string
  | CsvError string

fun str_error :: "py_error \<Rightarrow> string" where
  "str_error (OverflowError m) = m"
| "str_error (ValueError m) = m"
| "str_error (ZeroDivisionError m) = m"
| "str_error (TypeError m) = m"
| "str_error (KeyError m) = m"
| "str_error (OSError m) = m"
| "str_error (ParserError m) = m"
| "str_error (CsvError m) = m"

subsection \<open>Floats\<close>

text \<open>
  A float is a finite value, an infinity or NaN. The two zeros of binary64 are not told
  apart: no operation of the source separates them (they compare equal, and the only
  division is guarded against a zero divisor).
\<close>

datatype pyfloat = Fin real | PInf | NInf | NaN

text \<open>
  Rounding to the nearest binary64 value, ties to the even neighbour. Around a value
  of magnitude between \<open>2\<^sup>e\<close> and \<open>2\<^sup>e\<^sup>+\<^sup>1\<close> the representable values are the multiples of
  \<open>2\<^sup>e\<^sup>-\<^sup>5\<^sup>2\<close>; below \<open>2\<^sup>-\<^sup>1\<^sup>0\<^sup>2\<^sup>2\<close> (the subnormal range) they are the multiples of
  \<open>2\<^sup>-\<^sup>1\<^sup>0\<^sup>7\<^sup>4\<close>.
\<close>

definition round_half_even :: "real \<Rightarrow> int" where
  "round_half_even v =
     (let f = \<lfloor>v\<rfloor>
      in if v - of_int f < 1 / 2 then f
         else if 1 / 2 < v - of_int f then f + 1
         else if even f then f else f + 1)"

definition quantum :: "real \<Rightarrow> real" where
  "quantum v = 2 powi (max \<lfloor>log 2 \<bar>v\<bar>\<rfloor> (- 1022) - 52)"

definition rnd_real :: "real \<Rightarrow> real" where
  "rnd_real v = sgn v * (of_int (round_half_even (\<bar>v\<bar> / quantum v)) * quantum v)"

text \<open>A rounded value of magnitude \<open>2\<^sup>1\<^sup>0\<^sup>2\<^sup>4\<close> or more is an overflow.\<close>

definition float_limit :: real where
  "float_limit = 2 ^ 1024"

definition to_float :: "real \<Rightarrow> pyfloat" where
  "to_float v =
     (let r = rnd_real v
      in if float_limit \<le> r then PInf else if r \<le> - float_limit then NInf else Fin r)"

fun fneg :: "pyfloat \<Rightarrow> pyfloat" where
  "fneg (Fin a) = Fin (- a)"
| "fneg PInf = NInf"
| "fneg NInf = PInf"
| "fneg NaN = NaN"

text \<open>\<^verbatim>\<open>a + b\<close> and \<^verbatim>\<open>a - b\<close> on floats: never an exception.\<close>

fun fadd :: "pyfloat \<Rightarrow> pyfloat \<Rightarrow> pyfloat" where
  "fadd (Fin a) (Fin b) = to_float (a + b)"
| "fadd NaN _ = NaN"
| "fadd _ NaN = NaN"
| "fadd PInf NInf = NaN"
| "fadd NInf PInf = NaN"
| "fadd PInf _ = PInf"
| "fadd _ PInf = PInf"
| "fadd NInf _ = NInf"
| "fadd _ NInf = NInf"

definition fsub :: "pyfloat \<Rightarrow> pyfloat \<Rightarrow> pyfloat" where
  "fsub a b = fadd a (fneg b)"

text \<open>
  \<^verbatim>\<open>a ** 2\<close> on a float: the square of a finite value that overflows raises
  \<^verbatim>\<open>OverflowError\<close>; the square of an infinity is infinity and that of NaN is NaN.
\<close>

fun fpow2 :: "pyfloat \<Rightarrow> py_error + pyfloat" where
  "fpow2 (Fin a) =
     (case to_float (a ^ 2) of
        Fin r \<Rightarrow> Inr (Fin r)
      | _ \<Rightarrow> Inl (OverflowError ''(34, 'Numerical result out of range')''))"
| "fpow2 PInf = Inr PInf"
| "fpow2 NInf = Inr PInf"
| "fpow2 NaN = Inr NaN"

text \<open>\<^verbatim>\<open>math.sqrt\<close> on a float.\<close>

fun fsqrt :: "pyfloat \<Rightarrow> py_error + pyfloat" where
  "fsqrt (Fin a) =
     (if a < 0 then Inl (ValueError ''math domain error'')
      else Inr (Fin (rnd_real (sqrt a))))"
| "fsqrt PInf = Inr PInf"
| "fsqrt NInf = Inl (ValueError ''math domain error'')"
| "fsqrt NaN = Inr NaN"

text \<open>\<^verbatim>\<open>a / b\<close> on floats: a zero divisor raises.\<close>

fun fdiv :: "pyfloat \<Rightarrow> pyfloat \<Rightarrow> py_error + pyfloat" where
  "fdiv (Fin a) (Fin b) =
     (if b = 0 then Inl (ZeroDivisionError ''float division by zero'')
      else Inr (to_float (a / b)))"
| "fdiv NaN (Fin b) =
     (if b = 0 then Inl (ZeroDivisionError ''float division by zero'') else Inr NaN)"
| "fdiv PInf (Fin b) =
     (if b = 0 then Inl (ZeroDivisionError ''float division by zero'')
      else Inr (if 0 < b then PInf else NInf))"
| "fdiv NInf (Fin b) =
     (if b = 0 then Inl (ZeroDivisionError ''float division by zero'')
      else Inr (if 0 < b then NInf else PInf))"
| "fdiv _ NaN = Inr NaN"
| "fdiv NaN _ = Inr NaN"
| "fdiv (Fin a) _ = Inr (Fin 0)"
| "fdiv _ _ = Inr NaN"

text \<open>\<^verbatim>\<open>a < b\<close> and \<^verbatim>\<open>a <= b\<close> on floats: false as soon as one side is NaN.\<close>

fun flt :: "pyfloat \<Rightarrow> pyfloat \<Rightarrow> bool" where
  "flt (Fin a) (Fin b) = (a < b)"
| "flt NaN _ = False"
| "flt _ NaN = False"
| "flt PInf _ = False"
| "flt _ NInf = False"
| "flt _ _ = True"

fun fle :: "pyfloat \<Rightarrow> pyfloat \<Rightarrow> bool" where
  "fle (Fin a) (Fin b) = (a \<le> b)"
| "fle NaN _ = False"
| "fle _ NaN = False"
| "fle NInf _ = True"
| "fle _ PInf = True"
| "fle _ _ = False"

text \<open>\<^verbatim>\<open>a == b\<close> on floats: NaN equals nothing, not even itself.\<close>

fun feq :: "pyfloat \<Rightarrow> pyfloat \<Rightarrow> bool" where
  "feq NaN _ = False"
| "feq _ NaN = False"
| "feq a b = (a = b)"

subsection \<open>Integers and floats together\<close>

datatype pynum = PInt int | PFloat pyfloat

text \<open>Converting an integer to a float rounds, and raises when the integer is too large.\<close>

definition int_to_float :: "int \<Rightarrow> py_error + pyfloat" where
  "int_to_float n =
     (case to_float (of_int n) of
        Fin r \<Rightarrow> Inr (Fin r)
      | _ \<Rightarrow> Inl (OverflowError ''int too large to convert to float''))"

fun num_to_float :: "pynum \<Rightarrow> py_error + pyfloat" where
  "num_to_float (PInt n) = int_to_float n"
| "num_to_float (PFloat f) = Inr f"

text \<open>
  \<^verbatim>\<open>a - b\<close>, \<^verbatim>\<open>a + b\<close>: exact on two integers; otherwise both sides become floats,
  the left one first.
\<close>

fun num_sub :: "pynum \<Rightarrow> pynum \<Rightarrow> py_error + pynum" where
  "num_sub (PInt m) (PInt n) = Inr (PInt (m - n))"
| "num_sub a b =
     (case num_to_float a of
        Inl e \<Rightarrow> Inl e
      | Inr fa \<Rightarrow>
          (case num_to_float b of
             Inl e \<Rightarrow> Inl e
           | Inr fb \<Rightarrow> Inr (PFloat (fsub fa fb))))"

fun num_add :: "pynum \<Rightarrow> pynum \<Rightarrow> py_error + pynum" where
  "num_add (PInt m) (PInt n) = Inr (PInt (m + n))"
| "num_add a b =
     (case num_to_float a of
        Inl e \<Rightarrow> Inl e
      | Inr fa \<Rightarrow>
          (case num_to_float b of
             Inl e \<Rightarrow> Inl e
           | Inr fb \<Rightarrow> Inr (PFloat (fadd fa fb))))"

text \<open>\<^verbatim>\<open>a ** 2\<close>: exact on an integer.\<close>

fun num_pow2 :: "pynum \<Rightarrow> py_error + pynum" where
  "num_pow2 (PInt n) = Inr (PInt (n ^ 2))"
| "num_pow2 (PFloat f) = (case fpow2 f of Inl e \<Rightarrow> Inl e | Inr r \<Rightarrow> Inr (PFloat r))"

text \<open>\<^verbatim>\<open>math.sqrt(a)\<close>: the argument is converted to a float first.\<close>

definition num_sqrt :: "pynum \<Rightarrow> py_error + pyfloat" where
  "num_sqrt a = (case num_to_float a of Inl e \<Rightarrow> Inl e | Inr f \<Rightarrow> fsqrt f)"

text \<open>
  Comparisons between an integer and a float compare the exact values; \<open>exact\<close> gives
  the value of a number without rounding.
\<close>

fun exact :: "pynum \<Rightarrow> pyfloat" where
  "exact (PInt n) = Fin (of_int n)"
| "exact (PFloat f) = f"

definition num_lt :: "pynum \<Rightarrow> pynum \<Rightarrow> bool" where
  "num_lt a b = flt (exact a) (exact b)"

definition num_le :: "pynum \<Rightarrow> pynum \<Rightarrow> bool" where
  "num_le a b = fle (exact a) (exact b)"

definition num_eq :: "pynum \<Rightarrow> pynum \<Rightarrow> bool" where
  "num_eq a b = feq (exact a) (exact b)"

text \<open>
  \<^verbatim>\<open>a / b\<close>: two integers give the correctly rounded quotient, and raise when it is
  too large for a float; otherwise both sides become floats.
\<close>

fun num_div :: "pynum \<Rightarrow> pynum \<Rightarrow> py_error + pyfloat" where
  "num_div (PInt m) (PInt n) =
     (if n = 0 then Inl (ZeroDivisionError ''division by zero'')
      else (case to_float (of_int m / of_int n) of
              Fin r \<Rightarrow> Inr (Fin r)
            | _ \<Rightarrow> Inl (OverflowError ''integer division result too large for a float'')))"
| "num_div a b =
     (case num_to_float a of
        Inl e \<Rightarrow> Inl e
      | Inr fa \<Rightarrow>
          (case num_to_float b of
             Inl e \<Rightarrow> Inl e
           | Inr fb \<Rightarrow> fdiv fa fb))"

text \<open>\<^verbatim>\<open>math.ceil(a)\<close>: an integer; an infinity or NaN raises.\<close>

fun num_ceil :: "pynum \<Rightarrow> py_error + int" where
  "num_ceil (PInt n) = Inr n"
| "num_ceil (PFloat (Fin v)) = Inr \<lceil>v\<rceil>"
| "num_ceil (PFloat NaN) = Inl (ValueError ''cannot convert float NaN to integer'')"
| "num_ceil (PFloat _) = Inl (OverflowError ''cannot convert float infinity to integer'')"

text \<open>
  Adding a sequence of numbers to a start value one after the other from the left, as
  the statement \<^verbatim>\<open>total += d\<close> in a loop does. \<open>left_sum\<close> is this sum for a sequence of
  floats started from the integer 0: it is what the builtin \<^verbatim>\<open>sum\<close> returns in the
  interpreters before Python 3.12. From 3.12 on the builtin compensates the rounding
  errors of floats, so the optimizer below takes the builtin as a parameter.
\<close>

fun sum_from :: "pynum \<Rightarrow> pynum list \<Rightarrow> py_error + pynum" where
  "sum_from acc [] = Inr acc"
| "sum_from acc (d # ds) =
     (case num_add acc d of Inl e \<Rightarrow> Inl e | Inr acc' \<Rightarrow> sum_from acc' ds)"

definition left_sum :: "pyfloat list \<Rightarrow> py_error + pynum" where
  "left_sum ds = sum_from (PInt 0) (map PFloat ds)"

section \<open>Data model of the route calculator\<close>

text \<open>
  A Python value that can be a name or a cell of an imported table: text, a number or
  a truth value.
\<close>

datatype pyval = PStr string | PNum pynum | PBool bool

text \<open>
  A system is a dictionary with a \<^verbatim>\<open>name\<close> and a \<^verbatim>\<open>coordinates\<close> dictionary holding
  \<^verbatim>\<open>x\<close>, \<^verbatim>\<open>y\<close> and \<^verbatim>\<open>z\<close>. No function of the source ever writes into a system
  dictionary, so systems are values here; the lists that hold them are objects with an
  identity.
\<close>

record coords =
  x :: pynum
  y :: pynum
  z :: pynum

record system =
  name :: pyval
  coordinates :: coords

subsection \<open>The store of list objects\<close>

text \<open>
  Python lists are mutable objects reached through references. The store is the
  sequence of list objects allocated so far; a reference is a position in it, so the
  next free reference is the length of the store and is never a live one.
\<close>

type_synonym addr = nat

datatype obj = SysList "system list" | NameList "pyval list"

type_synonym heap = "obj list"

definition lookup :: "heap \<Rightarrow> addr \<Rightarrow> obj option" where
  "lookup h a = (if a < length h then Some (h ! a) else None)"

definition alloc :: "heap \<Rightarrow> obj \<Rightarrow> addr \<times> heap" where
  "alloc h v = (length h, h @ [v])"

definition store :: "heap \<Rightarrow> addr \<Rightarrow> obj \<Rightarrow> heap" where
  "store h a v = h[a := v]"

text \<open>
  Reading a reference as a list of systems. Anything else there makes \<^verbatim>\<open>len\<close>,
  indexing or iteration raise.
\<close>

definition get_systems :: "heap \<Rightarrow> addr \<Rightarrow> py_error + system list" where
  "get_systems h a =
     (case lookup h a of
        Some (SysList sys) \<Rightarrow> Inr sys
      | _ \<Rightarrow> Inl (TypeError ''not a list of systems''))"

subsection \<open>The calculator object\<close>

text \<open>
  One entry of \<^verbatim>\<open>route_log\<close>: the dictionary with the keys \<^verbatim>\<open>timestamp\<close>,
  \<^verbatim>\<open>systems\<close> (a reference to a list of names) and \<^verbatim>\<open>distance\<close>.
\<close>

record entry =
  timestamp :: string
  entry_systems :: addr
  distance :: pynum

text \<open>
  \<^verbatim>\<open>self.systems\<close> is a reference to the live route; \<^verbatim>\<open>self.route_log\<close> is only ever
  appended to through \<^verbatim>\<open>self\<close> and is kept by value.
\<close>

record calc =
  systems :: addr
  route_log :: "entry list"
  jump_range :: pynum

section \<open>Distance between two coordinate dictionaries\<close>

text \<open>
  \<^verbatim>\<open>
  def calculate_distance(self, coords1, coords2):
      return math.sqrt(
          (coords2["x"] - coords1["x"]) ** 2 +
          (coords2["y"] - coords1["y"]) ** 2 +
          (coords2["z"] - coords1["z"]) ** 2)
  \<close>
  The operands are evaluated from the left, and the first exception ends the
  evaluation.
\<close>

definition sq_diff :: "pynum \<Rightarrow> pynum \<Rightarrow> py_error + pynum" where
  "sq_diff c2 c1 = (case num_sub c2 c1 of Inl e \<Rightarrow> Inl e | Inr d \<Rightarrow> num_pow2 d)"

definition calculate_distance :: "coords \<Rightarrow> coords \<Rightarrow> py_error + pyfloat" where
  "calculate_distance coords1 coords2 =
     (case sq_diff (x coords2) (x coords1) of
        Inl e \<Rightarrow> Inl e
      | Inr sx \<Rightarrow>
     (case sq_diff (y coords2) (y coords1) of
        Inl e \<Rightarrow> Inl e
      | Inr sy \<Rightarrow>
     (case num_add sx sy of
        Inl e \<Rightarrow> Inl e
      | Inr sxy \<Rightarrow>
     (case sq_diff (z coords2) (z coords1) of
        Inl e \<Rightarrow> Inl e
      | Inr sz \<Rightarrow>
     (case num_add sxy sz of
        Inl e \<Rightarrow> Inl e
      | Inr s \<Rightarrow> num_sqrt s)))))"

text \<open>
  A number is finite when it is an integer or a finite float; a coordinate dictionary
  is finite when its three numbers are.
\<close>

fun is_finite :: "pynum \<Rightarrow> bool" where
  "is_finite (PInt n) = True"
| "is_finite (PFloat (Fin r)) = True"
| "is_finite (PFloat _) = False"

definition finite_coords :: "coords \<Rightarrow> bool" where
  "finite_coords c = (is_finite (x c) \<and> is_finite (y c) \<and> is_finite (z c))"

text \<open>A number that is not negative and not NaN.\<close>

fun nonneg_num :: "pynum \<Rightarrow> bool" where
  "nonneg_num (PInt n) = (0 \<le> n)"
| "nonneg_num (PFloat (Fin r)) = (0 \<le> r)"
| "nonneg_num (PFloat PInf) = True"
| "nonneg_num (PFloat _) = False"

section \<open>Distances along the entered route\<close>

text \<open>
  \<^verbatim>\<open>
  def calculate_route_distances(self):
      distances = []
      total_distance = 0
      for i in range(len(self.systems) - 1):
          system1 = self.systems[i]
          system2 = self.systems[i + 1]
          distance = self.calculate_distance(
              system1["coordinates"], system2["coordinates"])
          total_distance += distance
          distances.append((system1["name"], system2["name"], distance))
      return distances, total_distance
  \<close>
  \<open>route_loop\<close> is the loop over the indices still to visit, with the pair
  \<^verbatim>\<open>(distances, total_distance)\<close> as its state; an exception of \<^verbatim>\<open>calculate_distance\<close>
  ends it. The indices are \<^verbatim>\<open>range(len - 1)\<close>; for an empty route \<^verbatim>\<open>range(-1)\<close> is
  empty, as \<open>[0..<0 - 1]\<close> is.
\<close>

type_synonym leg = "pyval \<times> pyval \<times> pyfloat"

fun route_loop :: "system list \<Rightarrow> nat list \<Rightarrow> leg list \<times> pynum \<Rightarrow> py_error + leg list \<times> pynum" where
  "route_loop sys [] acc = Inr acc"
| "route_loop sys (i # rest) acc =
     (let system1 = sys ! i;
          system2 = sys ! (i + 1)
      in case calculate_distance (coordinates system1) (coordinates system2) of
           Inl e \<Rightarrow> Inl e
         | Inr d \<Rightarrow>
             (case num_add (snd acc) (PFloat d) of
                Inl e \<Rightarrow> Inl e
              | Inr total_distance \<Rightarrow>
                  route_loop sys rest
                    (fst acc @ [(name system1, name system2, d)], total_distance)))"

definition route_distances :: "system list \<Rightarrow> py_error + leg list \<times> pynum" where
  "route_distances sys = route_loop sys [0..<length sys - 1] ([], PInt 0)"

definition calculate_route_distances :: "calc \<Rightarrow> heap \<Rightarrow> py_error + leg list \<times> pynum" where
  "calculate_route_distances self h =
     (case get_systems h (systems self) of
        Inl e \<Rightarrow> Inl e
      | Inr sys \<Rightarrow> route_distances sys)"

section \<open>The shortest route with a pinned start\<close>

text \<open>
  \<^verbatim>\<open>itertools.permutations\<close> yields the orderings of its argument in lexicographic
  order of the positions of the input: first every ordering that starts with the
  element at position 0, then those that start with the element at position 1, and so
  on, equal elements at different positions being told apart.
\<close>

function permutations :: "'a list \<Rightarrow> 'a list list" where
  "permutations xs =
     (if xs = [] then [[]]
      else concat (map (\<lambda>i. map ((#) (xs ! i)) (permutations (take i xs @ drop (Suc i) xs)))
                       [0..<length xs]))"
  by pat_completeness auto
termination
  by (relation "measure length") auto

declare permutations.simps [simp del]

text \<open>
  The distances of the legs of a route, in order:
  \<^verbatim>\<open>calculate_distance(route[i]["coordinates"], route[i+1]["coordinates"])
       for i in range(len(route)-1)\<close>. The first leg that raises ends the evaluation.
\<close>

fun leg_distances :: "system list \<Rightarrow> nat list \<Rightarrow> py_error + pyfloat list" where
  "leg_distances route [] = Inr []"
| "leg_distances route (i # rest) =
     (case calculate_distance (coordinates (route ! i)) (coordinates (route ! (i + 1))) of
        Inl e \<Rightarrow> Inl e
      | Inr d \<Rightarrow>
          (case leg_distances route rest of
             Inl e \<Rightarrow> Inl e
           | Inr ds \<Rightarrow> Inr (d # ds)))"

text \<open>
  \<^verbatim>\<open>sum(... for i in range(len(route)-1))\<close>, with the builtin \<^verbatim>\<open>sum\<close> on floats as the
  parameter \<open>py_sum\<close>.
\<close>

definition tour_distance :: "(pyfloat list \<Rightarrow> py_error + pynum) \<Rightarrow> system list \<Rightarrow> py_error + pynum" where
  "tour_distance py_sum route =
     (case leg_distances route [0..<length route - 1] of
        Inl e \<Rightarrow> Inl e
      | Inr ds \<Rightarrow> py_sum ds)"

text \<open>
  What it means that \<open>t\<close> is the total distance of a route: every leg has a distance,
  and the builtin \<^verbatim>\<open>sum\<close> of these distances, taken in the order of the legs, is \<open>t\<close>.
\<close>

definition has_total :: "(pyfloat list \<Rightarrow> py_error + pynum) \<Rightarrow> system list \<Rightarrow> pynum \<Rightarrow> bool" where
  "has_total py_sum route t =
     (\<exists>ds. length ds = length route - 1
          \<and> (\<forall>i<length route - 1.
                calculate_distance (coordinates (route ! i)) (coordinates (route ! (i + 1)))
                  = Inr (ds ! i))
          \<and> py_sum ds = Inr t)"

text \<open>
  \<^verbatim>\<open>
  def optimize_route(self):
      if len(self.systems) < 2:
          return self.systems
      shortest_distance = float('inf')
      shortest_route = None
      for route in itertools.permutations(self.systems[1:]):
          route = [self.systems[0]] + list(route)
          total_distance = sum(...)
          if total_distance < shortest_distance:
              shortest_distance = total_distance
              shortest_route = route
      return shortest_route
  \<close>
  \<open>optimize_loop\<close> is the loop over the permutations still to visit, with the pair
  \<^verbatim>\<open>(shortest_distance, shortest_route)\<close> as its state; an exception raised while a
  total is computed ends it. What \<^verbatim>\<open>optimize_route\<close> returns is a reference: that of
  the live list for a short route, otherwise that of the list built in the winning
  iteration, a new object, or \<^verbatim>\<open>None\<close> when no iteration won. The store is returned
  with the outcome, also when the outcome is an exception.
\<close>

fun optimize_loop ::
  "(pyfloat list \<Rightarrow> py_error + pynum) \<Rightarrow> system \<Rightarrow> system list list
     \<Rightarrow> pynum \<times> system list option \<Rightarrow> py_error + pynum \<times> system list option" where
  "optimize_loop py_sum first [] best = Inr best"
| "optimize_loop py_sum first (perm # rest) best =
     (let route = [first] @ perm
      in case tour_distance py_sum route of
           Inl e \<Rightarrow> Inl e
         | Inr total_distance \<Rightarrow>
             if num_lt total_distance (fst best)
             then optimize_loop py_sum first rest (total_distance, Some route)
             else optimize_loop py_sum first rest best)"

definition optimize_route ::
  "(pyfloat list \<Rightarrow> py_error + pynum) \<Rightarrow> calc \<Rightarrow> heap \<Rightarrow> (py_error + addr option) \<times> heap" where
  "optimize_route py_sum self h =
     (case get_systems h (systems self) of
        Inl e \<Rightarrow> (Inl e, h)
      | Inr sys \<Rightarrow>
          if length sys < 2 then (Inr (Some (systems self)), h)
          else (case optimize_loop py_sum (sys ! 0) (permutations (drop 1 sys))
                       (PFloat PInf, None) of
                  Inl e \<Rightarrow> (Inl e, h)
                | Inr (shortest_distance, None) \<Rightarrow> (Inr None, h)
                | Inr (shortest_distance, Some shortest_route) \<Rightarrow>
                    (let (a, h') = alloc h (SysList shortest_route)
                     in (Inr (Some a), h'))))"

section \<open>The route history\<close>

text \<open>
  \<^verbatim>\<open>
  def log_route(self, systems, total_distance):
      self.route_log.append({
          'timestamp': datetime.now().strftime('%Y-%m-%d %H:%M:%S'),
          'systems': [system['name'] for system in systems],
          'distance': total_distance
      })
  \<close>
  The formatted clock reading is the argument \<open>now\<close>. The comprehension builds a new
  list object.
\<close>

definition log_route :: "string \<Rightarrow> addr \<Rightarrow> pynum \<Rightarrow> calc \<Rightarrow> heap \<Rightarrow> py_error + calc \<times> heap" where
  "log_route now systems_arg total_distance self h =
     (case get_systems h systems_arg of
        Inl e \<Rightarrow> Inl e
      | Inr sys \<Rightarrow>
          (let (a, h') = alloc h (NameList (map name sys))
           in Inr (self\<lparr>route_log := route_log self @
                       [\<lparr>timestamp = now, entry_systems = a, distance = total_distance\<rparr>]\<rparr>,
                   h')))"

text \<open>The names an entry of the history shows, read through its reference.\<close>

definition entry_names :: "heap \<Rightarrow> entry \<Rightarrow> pyval list option" where
  "entry_names h e =
     (case lookup h (entry_systems e) of
        Some (NameList ns) \<Rightarrow> Some ns
      | _ \<Rightarrow> None)"

section \<open>Estimated jumps\<close>

text \<open>
  \<^verbatim>\<open>
  def calculate_jumps(self, distance, jump_range):
      if jump_range <= 0:
          return 0
      return math.ceil(distance / jump_range)
  \<close>
\<close>

definition calculate_jumps :: "pynum \<Rightarrow> pynum \<Rightarrow> py_error + int" where
  "calculate_jumps =
     (\<lambda>d jump_range.
        if num_le jump_range (PInt 0) then Inr 0
        else (case num_div d jump_range of
                Inl e \<Rightarrow> Inl e
              | Inr q \<Rightarrow> num_ceil (PFloat q)))"

section \<open>Import from CSV\<close>

text \<open>
  What \<^verbatim>\<open>pandas.read_csv\<close> returns: the column names and, for every data row, the
  cell under each column name, as \<^verbatim>\<open>iterrows\<close> hands it over.
\<close>

record dataframe =
  columns :: "string list"
  rows :: "(string \<rightharpoonup> pyval) list"

definition required_columns :: "string list" where
  "required_columns = [''System Name'', ''X'', ''Y'', ''Z'']"

text \<open>\<^verbatim>\<open>row[k]\<close>; the text of a \<^verbatim>\<open>KeyError\<close> is the key between quotes.\<close>

definition row_get :: "(string \<rightharpoonup> pyval) \<Rightarrow> string \<Rightarrow> py_error + pyval" where
  "row_get row k =
     (case row k of
        None \<Rightarrow> Inl (KeyError ([CHR 0x27] @ k @ [CHR 0x27]))
      | Some v \<Rightarrow> Inr v)"

text \<open>
  \<^verbatim>\<open>float(v)\<close>: a float is taken as it is, NaN included; an integer is converted and
  raises when it is too large; text is parsed by the builtin, the parameter
  \<open>str_to_float\<close>, which returns a float or raises.
\<close>

fun py_float :: "(string \<Rightarrow> py_error + pyfloat) \<Rightarrow> pyval \<Rightarrow> py_error + pyfloat" where
  "py_float str_to_float (PNum n) = num_to_float n"
| "py_float str_to_float (PBool b) = Inr (Fin (if b then 1 else 0))"
| "py_float str_to_float (PStr s) = str_to_float s"

text \<open>\<^verbatim>\<open>float(row[k])\<close>.\<close>

definition float_field ::
  "(string \<Rightarrow> py_error + pyfloat) \<Rightarrow> (string \<rightharpoonup> pyval) \<Rightarrow> string \<Rightarrow> py_error + pyfloat" where
  "float_field str_to_float row k =
     (case row_get row k of Inl e \<Rightarrow> Inl e | Inr v \<Rightarrow> py_float str_to_float v)"

text \<open>
  The dictionary built for one row; its four values are evaluated in the order
  written, and the first exception ends the evaluation.
\<close>

definition import_row ::
  "(string \<Rightarrow> py_error + pyfloat) \<Rightarrow> (string \<rightharpoonup> pyval) \<Rightarrow> py_error + system" where
  "import_row str_to_float row =
     (case row_get row ''System Name'' of
        Inl e \<Rightarrow> Inl e
      | Inr n \<Rightarrow>
     (case float_field str_to_float row ''X'' of
        Inl e \<Rightarrow> Inl e
      | Inr vx \<Rightarrow>
     (case float_field str_to_float row ''Y'' of
        Inl e \<Rightarrow> Inl e
      | Inr vy \<Rightarrow>
     (case float_field str_to_float row ''Z'' of
        Inl e \<Rightarrow> Inl e
      | Inr vz \<Rightarrow>
          Inr \<lparr>name = n,
               coordinates = \<lparr>x = PFloat vx, y = PFloat vy, z = PFloat vz\<rparr>\<rparr>))))"

text \<open>The loop over \<^verbatim>\<open>csv_data.iterrows()\<close>, with \<^verbatim>\<open>imported_systems\<close> as accumulator.\<close>

fun import_rows ::
  "(string \<Rightarrow> py_error + pyfloat) \<Rightarrow> (string \<rightharpoonup> pyval) list \<Rightarrow> system list
     \<Rightarrow> py_error + system list" where
  "import_rows str_to_float [] imported_systems = Inr imported_systems"
| "import_rows str_to_float (row # rest) imported_systems =
     (case import_row str_to_float row of
        Inl e \<Rightarrow> Inl e
      | Inr system_data \<Rightarrow> import_rows str_to_float rest (imported_systems @ [system_data]))"

text \<open>Decimal digits of a natural number, for \<^verbatim>\<open>{len(imported_systems)}\<close>.\<close>

function str_nat :: "nat \<Rightarrow> string" where
  "str_nat n =
     (if n < 10 then [''0123456789'' ! n]
      else str_nat (n div 10) @ [''0123456789'' ! (n mod 10)])"
  by pat_completeness auto
termination
  by (relation "measure id") auto

declare str_nat.simps [simp del]

text \<open>
  \<^verbatim>\<open>
  def import_route_from_csv(self, file_content):
      try:
          csv_data = pd.read_csv(file_content)
          required_columns = ['System Name', 'X', 'Y', 'Z']
          if not all(col in csv_data.columns for col in required_columns):
              return False, "Invalid CSV format. Required columns: System Name, X, Y, Z"
          imported_systems = []
          for _, row in csv_data.iterrows():
              system_data = {...}
              imported_systems.append(system_data)
          self.systems.extend(imported_systems)
          return True, f"Successfully imported {len(imported_systems)} systems"
      except Exception as e:
          return False, f"Error importing CSV: {str(e)}"
  \<close>
  \<^verbatim>\<open>pandas.read_csv\<close> is the parameter \<open>read_csv\<close>: it raises or returns a frame.
  \<^verbatim>\<open>extend\<close> writes into the live list object. Every exception raised inside the
  \<^verbatim>\<open>try\<close> is caught and turned into the pair \<^verbatim>\<open>(False, message)\<close>.
\<close>

definition import_route_from_csv ::
  "(string \<Rightarrow> py_error + dataframe) \<Rightarrow> (string \<Rightarrow> py_error + pyfloat) \<Rightarrow> string \<Rightarrow> calc \<Rightarrow> heap
     \<Rightarrow> (bool \<times> string) \<times> heap" where
  "import_route_from_csv read_csv str_to_float file_content self h =
     (case read_csv file_content of
        Inl e \<Rightarrow> ((False, ''Error importing CSV: '' @ str_error e), h)
      | Inr csv_data \<Rightarrow>
          if \<not> list_all (\<lambda>col. col \<in> set (columns csv_data)) required_columns
          then ((False, ''Invalid CSV format. Required columns: System Name, X, Y, Z''), h)
          else (case import_rows str_to_float (rows csv_data) [] of
                  Inl e \<Rightarrow> ((False, ''Error importing CSV: '' @ str_error e), h)
                | Inr imported_systems \<Rightarrow>
                    (case get_systems h (systems self) of
                       Inl e \<Rightarrow> ((False, ''Error importing CSV: '' @ str_error e), h)
                     | Inr old \<Rightarrow>
                         ((True, ''Successfully imported '' @ str_nat (length imported_systems)
                                  @ '' systems''),
                          store h (systems self) (SysList (old @ imported_systems))))))"

section \<open>Export to CSV\<close>

text \<open>
  \<^verbatim>\<open>
  def export_route_to_csv(self, filename='route_export.csv'):
      if not self.systems:
          return False
      desktop_path = os.path.join(os.path.expanduser('~'), 'Desktop')
      file_path = os.path.join(desktop_path, filename)
      try:
          with open(file_path, 'w', newline='') as csvfile:
              writer = csv.writer(csvfile)
              writer.writerow(['System Name', 'X', 'Y', 'Z'])
              for system in self.systems:
                  writer.writerow([system['name'], system['coordinates']['x'],
                                   system['coordinates']['y'], system['coordinates']['z']])
          return True
      except Exception as e:
          print(f"Error exporting to CSV: {e}")
          return False
  \<close>
  The files are a map from paths to contents. Three things of the libraries are
  parameters: \<open>desktop_file\<close> gives the path of a file name on the desktop, \<open>open_w\<close>
  tells whether opening a path for writing raises, and \<open>writerow\<close> gives the text that
  \<^verbatim>\<open>csv.writer\<close> emits for one row, or the exception it raises. Opening empties the
  file; what was written before an exception stays in it. The message printed on
  failure is not modelled.
\<close>

type_synonym files = "string \<rightharpoonup> string"

definition header_row :: "pyval list" where
  "header_row = [PStr ''System Name'', PStr ''X'', PStr ''Y'', PStr ''Z'']"

definition system_row :: "system \<Rightarrow> pyval list" where
  "system_row s =
     [name s, PNum (x (coordinates s)), PNum (y (coordinates s)), PNum (z (coordinates s))]"

fun write_rows ::
  "(pyval list \<Rightarrow> py_error + string) \<Rightarrow> pyval list list \<Rightarrow> string \<Rightarrow> py_error option \<times> string" where
  "write_rows writerow [] content = (None, content)"
| "write_rows writerow (r # rest) content =
     (case writerow r of
        Inl e \<Rightarrow> (Some e, content)
      | Inr t \<Rightarrow> write_rows writerow rest (content @ t))"

definition export_route_to_csv ::
  "(string \<Rightarrow> string) \<Rightarrow> (string \<Rightarrow> py_error option) \<Rightarrow> (pyval list \<Rightarrow> py_error + string)
     \<Rightarrow> string \<Rightarrow> calc \<Rightarrow> heap \<Rightarrow> files \<Rightarrow> (py_error + bool) \<times> files" where
  "export_route_to_csv desktop_file open_w writerow filename self h fs =
     (case get_systems h (systems self) of
        Inl e \<Rightarrow> (Inl e, fs)
      | Inr sys \<Rightarrow>
          if sys = [] then (Inr False, fs)
          else (let file_path = desktop_file filename
                in case open_w file_path of
                     Some e \<Rightarrow> (Inr False, fs)
                   | None \<Rightarrow>
                       (case write_rows writerow (header_row # map system_row sys) [] of
                          (Some e, content) \<Rightarrow> (Inr False, fs(file_path \<mapsto> content))
                        | (None, content) \<Rightarrow> (Inr True, fs(file_path \<mapsto> content)))))"

section \<open>Worked examples\<close>

text \<open>
  Three systems with legs of length 3, 4 and 5 and a calculator whose live route holds
  them in the order entered.
\<close>

definition point :: "real \<Rightarrow> real \<Rightarrow> real \<Rightarrow> coords" where
  "point a b c = \<lparr>x = PFloat (Fin a), y = PFloat (Fin b), z = PFloat (Fin c)\<rparr>"

definition example_A :: system where
  "example_A = \<lparr>name = PStr ''A'', coordinates = point 0 0 0\<rparr>"

definition example_B :: system where
  "example_B = \<lparr>name = PStr ''B'', coordinates = point 3 0 0\<rparr>"

definition example_C :: system where
  "example_C = \<lparr>name = PStr ''C'', coordinates = point 3 4 0\<rparr>"

definition example_heap :: heap where
  "example_heap = [SysList [example_A, example_B, example_C]]"

definition example_calc :: calc where
  "example_calc = \<lparr>systems = 0, route_log = [], jump_range = PFloat (Fin 5)\<rparr>"

text \<open>
  Systems with finite coordinates on which the arithmetic leaves the finite floats: a
  difference of \<open>2\<^sup>5\<^sup>1\<^sup>2\<close>, whose square overflows, and two systems \<open>2\<^sup>1\<^sup>0\<^sup>2\<^sup>4\<close> apart. And a
  system with a coordinate that is NaN, as a blank cell of an imported file gives.
\<close>

definition example_far :: system where
  "example_far = \<lparr>name = PStr ''Far'', coordinates = point (2 ^ 512) 0 0\<rparr>"

definition example_west :: system where
  "example_west = \<lparr>name = PStr ''West'', coordinates = point (- (2 ^ 1023)) 0 0\<rparr>"

definition example_east :: system where
  "example_east = \<lparr>name = PStr ''East'', coordinates = point (2 ^ 1023) 0 0\<rparr>"

definition example_blank :: system where
  "example_blank =
     \<lparr>name = PStr ''Sol'',
      coordinates = \<lparr>x = PFloat NaN, y = PFloat (Fin 0), z = PFloat (Fin 0)\<rparr>\<rparr>"

text \<open>Stores whose live route, at reference 0, holds two of these systems.\<close>

definition example_heap_far :: heap where
  "example_heap_far = [SysList [example_A, example_far]]"

definition example_heap_wide :: heap where
  "example_heap_wide = [SysList [example_west, example_east]]"

definition example_heap_blank :: heap where
  "example_heap_blank = [SysList [example_A, example_blank]]"

text \<open>
  The floats that the literals \<^verbatim>\<open>1.1\<close> and \<^verbatim>\<open>0.1\<close> denote: the binary64 values nearest
  to the decimal numbers, the first a little above 1.1 and the second a little above
  0.1.
\<close>

definition example_1_1 :: real where
  "example_1_1 = 2476979795053773 / 2251799813685248"

definition example_0_1 :: real where
  "example_0_1 = 3602879701896397 / 36028797018963968"

text \<open>
  Small files with the frames \<^verbatim>\<open>pandas\<close> reads from them: one row with the four
  required columns; the same without the column \<^verbatim>\<open>Z\<close>; a row whose \<^verbatim>\<open>X\<close> is not a
  number; a row whose \<^verbatim>\<open>X\<close> is blank, which \<^verbatim>\<open>pandas\<close> reads as NaN; the file written
  for a system named \<^verbatim>\<open>007\<close>, whose name \<^verbatim>\<open>pandas\<close> reads as the number 7.0; and the
  file written for the system \<^verbatim>\<open>A\<close>, whose cells \<^verbatim>\<open>pandas\<close> reads as they were written.
\<close>

definition nl :: string where
  "nl = [CHR 0x0A]"

definition crlf :: string where
  "crlf = [CHR 0x0D, CHR 0x0A]"

definition example_csv :: string where
  "example_csv = ''System Name,X,Y,Z'' @ nl @ ''Sol,0,0,0'' @ nl"

definition example_csv_no_z :: string where
  "example_csv_no_z = ''System Name,X,Y'' @ nl @ ''Sol,0,0'' @ nl"

definition example_csv_text :: string where
  "example_csv_text = ''System Name,X,Y,Z'' @ nl @ ''Sol,abc,0,0'' @ nl"

definition example_csv_blank :: string where
  "example_csv_blank = ''System Name,X,Y,Z'' @ nl @ ''Sol,,0,0'' @ nl"

definition example_csv_007 :: string where
  "example_csv_007 = ''System Name,X,Y,Z'' @ crlf @ ''007,1.0,2.0,3.0'' @ crlf"

definition example_csv_A :: string where
  "example_csv_A = ''System Name,X,Y,Z'' @ crlf @ ''A,0.0,0.0,0.0'' @ crlf"

definition example_read_csv :: "string \<Rightarrow> py_error + dataframe" where
  "example_read_csv text =
     (if text = example_csv then
        Inr \<lparr>columns = [''System Name'', ''X'', ''Y'', ''Z''],
             rows = [[''System Name'' \<mapsto> PStr ''Sol'', ''X'' \<mapsto> PNum (PInt 0),
                      ''Y'' \<mapsto> PNum (PInt 0), ''Z'' \<mapsto> PNum (PInt 0)]]\<rparr>
      else if text = example_csv_no_z then
        Inr \<lparr>columns = [''System Name'', ''X'', ''Y''],
             rows = [[''System Name'' \<mapsto> PStr ''Sol'', ''X'' \<mapsto> PNum (PInt 0),
                      ''Y'' \<mapsto> PNum (PInt 0)]]\<rparr>
      else if text = example_csv_text then
        Inr \<lparr>columns = [''System Name'', ''X'', ''Y'', ''Z''],
             rows = [[''System Name'' \<mapsto> PStr ''Sol'', ''X'' \<mapsto> PStr ''abc'',
                      ''Y'' \<mapsto> PNum (PInt 0), ''Z'' \<mapsto> PNum (PInt 0)]]\<rparr>
      else if text = example_csv_blank then
        Inr \<lparr>columns = [''System Name'', ''X'', ''Y'', ''Z''],
             rows = [[''System Name'' \<mapsto> PStr ''Sol'', ''X'' \<mapsto> PNum (PFloat NaN),
                      ''Y'' \<mapsto> PNum (PInt 0), ''Z'' \<mapsto> PNum (PInt 0)]]\<rparr>
      else if text = example_csv_007 then
        Inr \<lparr>columns = [''System Name'', ''X'', ''Y'', ''Z''],
             rows = [[''System Name'' \<mapsto> PNum (PFloat (Fin 7)), ''X'' \<mapsto> PNum (PFloat (Fin 1)),
                      ''Y'' \<mapsto> PNum (PFloat (Fin 2)), ''Z'' \<mapsto> PNum (PFloat (Fin 3))]]\<rparr>
      else if text = example_csv_A then
        Inr \<lparr>columns = [''System Name'', ''X'', ''Y'', ''Z''],
             rows = [[''System Name'' \<mapsto> PStr ''A'', ''X'' \<mapsto> PNum (PFloat (Fin 0)),
                      ''Y'' \<mapsto> PNum (PFloat (Fin 0)), ''Z'' \<mapsto> PNum (PFloat (Fin 0))]]\<rparr>
      else Inl (ParserError ''No columns to parse from file''))"

text \<open>The builtin \<^verbatim>\<open>float\<close> on the two texts of the examples.\<close>

definition example_str_to_float :: "string \<Rightarrow> py_error + pyfloat" where
  "example_str_to_float s =
     (if s = ''1.5'' then Inr (Fin (3 / 2))
      else Inl (ValueError (''could not convert string to float: '' @ [CHR 0x27] @ s @ [CHR 0x27])))"

text \<open>
  A system named \<^verbatim>\<open>007\<close>, the store that holds it, and the text \<^verbatim>\<open>csv.writer\<close> emits
  for the header row, for the row of this system and for the row of the system \<^verbatim>\<open>A\<close>.
\<close>

definition example_007 :: system where
  "example_007 = \<lparr>name = PStr ''007'', coordinates = point 1 2 3\<rparr>"

definition example_heap_007 :: heap where
  "example_heap_007 = [SysList [example_007]]"

text \<open>Stores whose live route holds the system \<^verbatim>\<open>A\<close> alone, and no system.\<close>

definition example_heap_A :: heap where
  "example_heap_A = [SysList [example_A]]"

definition example_heap_empty :: heap where
  "example_heap_empty = [SysList []]"

definition example_writerow :: "pyval list \<Rightarrow> py_error + string" where
  "example_writerow r =
     (if r = header_row then Inr (''System Name,X,Y,Z'' @ crlf)
      else if r = system_row example_007 then Inr (''007,1.0,2.0,3.0'' @ crlf)
      else if r = system_row example_A then Inr (''A,0.0,0.0,0.0'' @ crlf)
      else Inl (CsvError ''row outside the example''))"

definition example_desktop_file :: "string \<Rightarrow> string" where
  "example_desktop_file filename = ''/home/user/Desktop/'' @ filename"

definition example_open_w :: "string \<Rightarrow> py_error option" where
  "example_open_w path = None"

section \<open>Properties of the float arithmetic\<close>

text \<open>
  The facts about rounding used below: rounding keeps the sign and is symmetric, and a
  value \<open>m \<times> 2\<^sup>k\<close> with \<open>\<bar>m\<bar> < 2\<^sup>5\<^sup>3\<close> and \<open>k \<ge> -1074\<close> is a binary64 value, so
  rounding leaves it as it is.
\<close>

lemma round_half_even_int [simp]: "round_half_even (of_int n) = n"
  by (simp add: round_half_even_def)

lemma round_half_even_nonneg: "0 \<le> v \<Longrightarrow> 0 \<le> round_half_even v"
  by (auto simp: round_half_even_def Let_def)

lemma quantum_pos: "0 < quantum v"
  by (simp add: quantum_def)

lemma quantum_minus [simp]: "quantum (- v) = quantum v"
  by (simp add: quantum_def)

lemma rnd_real_0 [simp]: "rnd_real 0 = 0"
  by (simp add: rnd_real_def)

lemma rnd_real_minus: "rnd_real (- v) = - rnd_real v"
  by (simp add: rnd_real_def sgn_minus)

lemma rnd_real_nonneg: "0 \<le> v \<Longrightarrow> 0 \<le> rnd_real v"
  using quantum_pos [of v] round_half_even_nonneg [of "\<bar>v\<bar> / quantum v"]
  by (simp add: rnd_real_def sgn_if)

lemma floor_log2:
  assumes "2 powi k \<le> v" and "v < 2 powi (k + 1)"
  shows "\<lfloor>log 2 v\<rfloor> = k"
proof -
  have "(0::real) < 2 powi k" by simp
  then have pos: "0 < v" using assms(1) by linarith
  have a: "of_int k \<le> log 2 v"
    using assms(1) pos by (simp add: le_log_iff powr_real_of_int' power_int_def)
  have p: "2 powr (real_of_int (k + 1)) = (2::real) powi (k + 1)"
    by (rule powr_real_of_int') simp_all
  have "v < 2 powr (real_of_int (k + 1))" using assms(2) by (simp only: p)
  then have b: "log 2 v < real_of_int (k + 1)"
    using pos log_less_iff [of 2 v "real_of_int (k + 1)"] by simp
  show ?thesis using a b by (simp add: floor_eq_iff)
qed

lemma floor_log2_upper:
  assumes "0 < v" and "v < 2 powi j"
  shows "\<lfloor>log 2 v\<rfloor> < j"
proof -
  have p: "2 powr (real_of_int j) = (2::real) powi j"
    by (rule powr_real_of_int') simp_all
  have "v < 2 powr (real_of_int j)" using assms(2) by (simp only: p)
  then have "log 2 v < real_of_int j"
    using assms(1) log_less_iff [of 2 v "real_of_int j"] by simp
  then show ?thesis by (simp add: floor_less_iff)
qed

lemma rnd_real_repr_pos:
  assumes m: "0 < m" "m < 2 ^ 53" and k: "- 1074 \<le> k"
  shows "rnd_real (of_int m * 2 powi k) = of_int m * 2 powi k"
proof -
  let ?v = "real_of_int m * 2 powi k"
  have vpos: "0 < ?v" using m(1) by simp
  have "real_of_int m < 2 ^ 53" using m(2) by (metis of_int_less_numeral_power_cancel_iff)
  then have "?v < 2 ^ 53 * 2 powi k" by simp
  also have "\<dots> = 2 powi (k + 53)"
    by (simp add: power_int_add)
  finally have "\<lfloor>log 2 ?v\<rfloor> < k + 53" using floor_log2_upper [OF vpos] by simp
  define E where "E = max \<lfloor>log 2 \<bar>?v\<bar>\<rfloor> (- 1022) - 52"
  have E: "E \<le> k" using \<open>\<lfloor>log 2 ?v\<rfloor> < k + 53\<close> k vpos by (simp add: E_def abs_of_pos)
  have q: "quantum ?v = 2 powi E" by (simp add: quantum_def E_def)
  have split: "(2::real) powi k = 2 ^ nat (k - E) * 2 powi E"
  proof -
    have "(2::real) powi k = 2 powi (int (nat (k - E)) + E)" using E by simp
    also have "\<dots> = 2 powi (int (nat (k - E))) * 2 powi E"
      by (rule power_int_add) simp
    also have "(2::real) powi (int (nat (k - E))) = 2 ^ nat (k - E)"
      by (rule power_int_of_nat)
    finally show ?thesis .
  qed
  have "\<bar>?v\<bar> / quantum ?v = ?v / 2 powi E"
    using vpos by (simp only: q abs_of_pos)
  also have "\<dots> = real_of_int m * 2 ^ nat (k - E)"
    by (subst split) simp
  also have "\<dots> = real_of_int (m * 2 ^ nat (k - E))" by simp
  finally have r: "round_half_even (\<bar>?v\<bar> / quantum ?v) = m * 2 ^ nat (k - E)"
    by (simp only: round_half_even_int)
  have "rnd_real ?v = sgn ?v * (real_of_int (round_half_even (\<bar>?v\<bar> / quantum ?v)) * quantum ?v)"
    by (simp only: rnd_real_def)
  also have "\<dots> = sgn ?v * (real_of_int (m * 2 ^ nat (k - E)) * quantum ?v)"
    by (simp only: r)
  also have "\<dots> = real_of_int (m * 2 ^ nat (k - E)) * 2 powi E"
    using vpos by (simp only: q) (simp add: sgn_if)
  also have "\<dots> = ?v" by (simp add: split)
  finally show ?thesis .
qed

lemma rnd_real_repr:
  assumes "\<bar>m\<bar> < 2 ^ 53" and "- 1074 \<le> k"
  shows "rnd_real (of_int m * 2 powi k) = of_int m * 2 powi k"
proof (cases "m = 0")
  case True
  then show ?thesis by simp
next
  case False
  show ?thesis
  proof (cases "0 < m")
    case True
    then show ?thesis using assms rnd_real_repr_pos [of m k] by simp
  next
    case neg: False
    with False have "0 < - m" "- m < 2 ^ 53" using assms(1) by simp_all
    from rnd_real_repr_pos [OF this assms(2)]
    have "rnd_real (- (of_int m * 2 powi k)) = - (of_int m * 2 powi k)" by simp
    then show ?thesis by (simp add: rnd_real_minus)
  qed
qed

lemma rnd_real_int: "\<bar>m\<bar> < 2 ^ 53 \<Longrightarrow> rnd_real (of_int m) = of_int m"
  using rnd_real_repr [of m 0] by simp

lemma rnd_real_pow2: "rnd_real (2 ^ n) = 2 ^ n"
  using rnd_real_repr [of 1 "int n"] by simp

lemma float_limit_pos: "0 < float_limit"
  by (simp only: float_limit_def zero_less_power zero_less_numeral)

lemma to_float_0 [simp]: "to_float 0 = Fin 0"
  using float_limit_pos by (simp add: to_float_def)

lemma to_float_minus: "to_float (- v) = fneg (to_float v)"
  using float_limit_pos by (simp add: to_float_def rnd_real_minus Let_def)

lemma to_float_nonneg:
  "0 \<le> v \<Longrightarrow> to_float v = PInf \<or> (\<exists>r\<ge>0. to_float v = Fin r)"
  using rnd_real_nonneg [of v] by (auto simp: to_float_def Let_def)

lemma to_float_not_nan [simp]: "to_float v \<noteq> NaN"
  by (simp add: to_float_def Let_def)

lemma to_float_fin:
  "rnd_real v = v \<Longrightarrow> \<bar>v\<bar> < float_limit \<Longrightarrow> to_float v = Fin v"
  by (auto simp: to_float_def Let_def)

lemma to_float_inf:
  "rnd_real v = v \<Longrightarrow> float_limit \<le> v \<Longrightarrow> to_float v = PInf"
  by (simp add: to_float_def Let_def)

lemma pow2_below_limit: "n < 1024 \<Longrightarrow> (2::real) ^ n < float_limit"
  unfolding float_limit_def by (rule power_strict_increasing) simp_all

lemma pow2_above_limit: "1024 \<le> n \<Longrightarrow> float_limit \<le> (2::real) ^ n"
  unfolding float_limit_def by (rule power_increasing) simp_all

lemma to_float_int:
  assumes m: "\<bar>m\<bar> < 2 ^ 53"
  shows "to_float (of_int m) = Fin (of_int m)"
proof -
  have "\<bar>real_of_int m\<bar> < 2 ^ 53"
    using m by (metis of_int_abs of_int_less_numeral_power_cancel_iff)
  also have "(2::real) ^ 53 < float_limit" by (rule pow2_below_limit) simp
  finally show ?thesis using rnd_real_int [OF m] by (rule to_float_fin [rotated])
qed

lemma to_float_numeral [simp]:
  "numeral n < (2 ^ 53 :: int) \<Longrightarrow> to_float (numeral n) = Fin (numeral n)"
  using to_float_int [of "numeral n"] by simp

lemma to_float_1 [simp]: "to_float 1 = Fin 1"
  using to_float_int [of 1] by simp

lemma to_float_pow2_fin: "n < 1024 \<Longrightarrow> to_float (2 ^ n) = Fin (2 ^ n)"
  using pow2_below_limit [of n] by (intro to_float_fin rnd_real_pow2) simp

lemma to_float_pow2_inf: "1024 \<le> n \<Longrightarrow> to_float (2 ^ n) = PInf"
  using pow2_above_limit [of n] by (intro to_float_inf rnd_real_pow2)

lemma fadd_commute: "fadd a b = fadd b a"
  by (cases a; cases b) (simp_all add: add.commute)

lemma fneg_fadd: "fneg (fadd a b) = fadd (fneg a) (fneg b)"
  by (cases a; cases b) (simp_all add: to_float_minus [symmetric])

lemma fneg_fneg [simp]: "fneg (fneg a) = a"
  by (cases a) simp_all

lemma fsub_swap: "fsub b a = fneg (fsub a b)"
  by (simp add: fsub_def fneg_fadd fadd_commute)

lemma fpow2_fneg [simp]: "fpow2 (fneg a) = fpow2 a"
  by (cases a) simp_all

lemma fsub_self: "fsub (Fin r) (Fin r) = Fin 0"
  by (simp add: fsub_def)

lemma int_to_float_0 [simp]: "int_to_float 0 = Inr (Fin 0)"
  by (simp add: int_to_float_def)

lemma sq_diff_commute: "sq_diff a b = sq_diff b a"
proof (cases a; cases b)
  fix m n assume "a = PInt m" "b = PInt n"
  then show ?thesis by (simp add: sq_diff_def power2_commute)
next
  fix m g assume "a = PInt m" "b = PFloat g"
  then show ?thesis
    by (simp add: sq_diff_def fsub_swap [of _ g] split: sum.splits)
next
  fix f n assume "a = PFloat f" "b = PInt n"
  then show ?thesis
    by (simp add: sq_diff_def fsub_swap [of f] split: sum.splits)
next
  fix f g assume "a = PFloat f" "b = PFloat g"
  then show ?thesis
    by (simp add: sq_diff_def fsub_swap [of f g])
qed

lemma calculate_distance_commute: "calculate_distance c1 c2 = calculate_distance c2 c1"
  by (simp only: calculate_distance_def sq_diff_commute [of "x c2" "x c1"]
      sq_diff_commute [of "y c2" "y c1"] sq_diff_commute [of "z c2" "z c1"])

lemma sq_diff_self: "is_finite a \<Longrightarrow> sq_diff a a = Inr (case a of PInt n \<Rightarrow> PInt 0 | PFloat f \<Rightarrow> PFloat (Fin 0))"
  by (cases a rule: is_finite.cases) (simp_all add: sq_diff_def fsub_self)

lemma calculate_distance_self:
  "finite_coords c \<Longrightarrow> calculate_distance c c = Inr (Fin 0)"
  by (cases "x c"; cases "y c"; cases "z c")
     (simp_all add: calculate_distance_def finite_coords_def sq_diff_self num_sqrt_def)

section \<open>Properties of the distance\<close>

text \<open>
  The outcomes of each arithmetic step on finite numbers: what an operation returns is
  again finite, or it raises \<^verbatim>\<open>OverflowError\<close>.
\<close>

lemma int_to_float_cases:
  "(\<exists>m. int_to_float n = Inl (OverflowError m)) \<or> (\<exists>r. int_to_float n = Inr (Fin r))"
  by (cases "to_float (of_int n)") (simp_all add: int_to_float_def)

lemma int_to_float_nonneg:
  assumes "0 \<le> n"
  shows "(\<exists>m. int_to_float n = Inl (OverflowError m)) \<or> (\<exists>r\<ge>0. int_to_float n = Inr (Fin r))"
proof -
  have "0 \<le> real_of_int n" using assms by simp
  from to_float_nonneg [OF this] show ?thesis
    by (auto simp: int_to_float_def)
qed

lemma num_to_float_finite:
  "is_finite a \<Longrightarrow>
   (\<exists>m. num_to_float a = Inl (OverflowError m)) \<or> (\<exists>r. num_to_float a = Inr (Fin r))"
  using int_to_float_cases by (cases a rule: is_finite.cases) auto

lemma num_to_float_nonneg:
  "nonneg_num a \<Longrightarrow>
   (\<exists>m. num_to_float a = Inl (OverflowError m))
   \<or> num_to_float a = Inr PInf \<or> (\<exists>r\<ge>0. num_to_float a = Inr (Fin r))"
  using int_to_float_nonneg by (cases a rule: nonneg_num.cases) auto

lemma fpow2_cases:
  "f \<noteq> NaN \<Longrightarrow>
   (\<exists>m. fpow2 f = Inl (OverflowError m)) \<or> fpow2 f = Inr PInf \<or> (\<exists>r\<ge>0. fpow2 f = Inr (Fin r))"
proof (cases f)
  case (Fin a)
  have "0 \<le> a ^ 2" by simp
  from to_float_nonneg [OF this] show ?thesis using Fin by auto
qed simp_all

lemma fsub_fin_not_nan: "fsub (Fin a) (Fin b) \<noteq> NaN"
  by (simp add: fsub_def)

lemma sq_diff_cases:
  assumes "is_finite a" and "is_finite b"
  shows "(\<exists>m. sq_diff a b = Inl (OverflowError m)) \<or> (\<exists>v. sq_diff a b = Inr v \<and> nonneg_num v)"
proof (cases "\<exists>m n. a = PInt m \<and> b = PInt n")
  case True
  then show ?thesis by (auto simp: sq_diff_def)
next
  case False
  then have sub: "num_sub a b =
     (case num_to_float a of
        Inl e \<Rightarrow> Inl e
      | Inr fa \<Rightarrow>
          (case num_to_float b of
             Inl e \<Rightarrow> Inl e
           | Inr fb \<Rightarrow> Inr (PFloat (fsub fa fb))))"
    by (cases a; cases b) auto
  from num_to_float_finite [OF assms(1)] show ?thesis
  proof
    assume "\<exists>m. num_to_float a = Inl (OverflowError m)"
    then show ?thesis by (auto simp: sq_diff_def sub)
  next
    assume "\<exists>r. num_to_float a = Inr (Fin r)"
    then obtain ra where ra: "num_to_float a = Inr (Fin ra)" by blast
    from num_to_float_finite [OF assms(2)] show ?thesis
    proof
      assume "\<exists>m. num_to_float b = Inl (OverflowError m)"
      then show ?thesis using ra by (auto simp: sq_diff_def sub)
    next
      assume "\<exists>r. num_to_float b = Inr (Fin r)"
      then obtain rb where rb: "num_to_float b = Inr (Fin rb)" by blast
      have s: "sq_diff a b = (case fpow2 (fsub (Fin ra) (Fin rb)) of Inl e \<Rightarrow> Inl e | Inr r \<Rightarrow> Inr (PFloat r))"
        by (simp add: sq_diff_def sub ra rb)
      from fpow2_cases [OF fsub_fin_not_nan [of ra rb]] show ?thesis
        by (auto simp: s)
    qed
  qed
qed

lemma fadd_nonneg:
  assumes "fa = PInf \<or> (\<exists>r\<ge>0. fa = Fin r)" and "fb = PInf \<or> (\<exists>r\<ge>0. fb = Fin r)"
  shows "fadd fa fb = PInf \<or> (\<exists>r\<ge>0. fadd fa fb = Fin r)"
proof (cases "fa = PInf \<or> fb = PInf")
  case True
  then show ?thesis using assms by auto
next
  case False
  with assms obtain a b where ab: "fa = Fin a" "0 \<le> a" "fb = Fin b" "0 \<le> b" by auto
  then have "0 \<le> a + b" by simp
  from to_float_nonneg [OF this] show ?thesis using ab by simp
qed

lemma num_add_cases:
  assumes "nonneg_num a" and "nonneg_num b"
  shows "(\<exists>m. num_add a b = Inl (OverflowError m)) \<or> (\<exists>v. num_add a b = Inr v \<and> nonneg_num v)"
proof (cases "\<exists>m n. a = PInt m \<and> b = PInt n")
  case True
  then show ?thesis using assms by auto
next
  case False
  then have add: "num_add a b =
     (case num_to_float a of
        Inl e \<Rightarrow> Inl e
      | Inr fa \<Rightarrow>
          (case num_to_float b of
             Inl e \<Rightarrow> Inl e
           | Inr fb \<Rightarrow> Inr (PFloat (fadd fa fb))))"
    by (cases a; cases b) auto
  have nn: "nonneg_num (PFloat f)" if "f = PInf \<or> (\<exists>r\<ge>0. f = Fin r)" for f
    using that by auto
  from num_to_float_nonneg [OF assms(1)] num_to_float_nonneg [OF assms(2)]
  consider (ea) m where "num_to_float a = Inl (OverflowError m)"
    | (eb) fa m where "num_to_float a = Inr fa" "num_to_float b = Inl (OverflowError m)"
    | (ok) fa fb where "num_to_float a = Inr fa" "num_to_float b = Inr fb"
        "fa = PInf \<or> (\<exists>r\<ge>0. fa = Fin r)" "fb = PInf \<or> (\<exists>r\<ge>0. fb = Fin r)"
    by blast
  then show ?thesis
  proof cases
    case ea
    then show ?thesis by (simp add: add)
  next
    case eb
    then show ?thesis by (simp add: add)
  next
    case ok
    from fadd_nonneg [OF ok(3) ok(4)] have "nonneg_num (PFloat (fadd fa fb))" by (rule nn)
    then show ?thesis using ok by (simp add: add)
  qed
qed

lemma num_sqrt_cases:
  assumes "nonneg_num s"
  shows "(\<exists>m. num_sqrt s = Inl (OverflowError m))
       \<or> num_sqrt s = Inr PInf \<or> (\<exists>r\<ge>0. num_sqrt s = Inr (Fin r))"
proof -
  have "0 \<le> rnd_real (sqrt r)" if "0 \<le> r" for r
    using that by (simp add: rnd_real_nonneg)
  then show ?thesis
    using num_to_float_nonneg [OF assms] by (auto simp: num_sqrt_def)
qed

lemma calculate_distance_cases:
  assumes "finite_coords c1" and "finite_coords c2"
  shows "(\<exists>m. calculate_distance c1 c2 = Inl (OverflowError m))
       \<or> calculate_distance c1 c2 = Inr PInf
       \<or> (\<exists>r\<ge>0. calculate_distance c1 c2 = Inr (Fin r))"
proof -
  have fx: "is_finite (x c1)" "is_finite (x c2)" and fy: "is_finite (y c1)" "is_finite (y c2)"
    and fz: "is_finite (z c1)" "is_finite (z c2)"
    using assms by (simp_all add: finite_coords_def)
  from sq_diff_cases [OF fx(2) fx(1)] show ?thesis
  proof (elim disjE exE conjE)
    fix m assume "sq_diff (x c2) (x c1) = Inl (OverflowError m)"
    then show ?thesis by (simp add: calculate_distance_def)
  next
    fix sx assume sx: "sq_diff (x c2) (x c1) = Inr sx" "nonneg_num sx"
    from sq_diff_cases [OF fy(2) fy(1)] show ?thesis
    proof (elim disjE exE conjE)
      fix m assume "sq_diff (y c2) (y c1) = Inl (OverflowError m)"
      then show ?thesis using sx by (simp add: calculate_distance_def)
    next
      fix sy assume sy: "sq_diff (y c2) (y c1) = Inr sy" "nonneg_num sy"
      from num_add_cases [OF sx(2) sy(2)] show ?thesis
      proof (elim disjE exE conjE)
        fix m assume "num_add sx sy = Inl (OverflowError m)"
        then show ?thesis using sx sy by (simp add: calculate_distance_def)
      next
        fix sxy assume sxy: "num_add sx sy = Inr sxy" "nonneg_num sxy"
        from sq_diff_cases [OF fz(2) fz(1)] show ?thesis
        proof (elim disjE exE conjE)
          fix m assume "sq_diff (z c2) (z c1) = Inl (OverflowError m)"
          then show ?thesis using sx sy sxy by (simp add: calculate_distance_def)
        next
          fix sz assume sz: "sq_diff (z c2) (z c1) = Inr sz" "nonneg_num sz"
          from num_add_cases [OF sxy(2) sz(2)] show ?thesis
          proof (elim disjE exE conjE)
            fix m assume "num_add sxy sz = Inl (OverflowError m)"
            then show ?thesis using sx sy sxy sz by (simp add: calculate_distance_def)
          next
            fix s assume s: "num_add sxy sz = Inr s" "nonneg_num s"
            have "calculate_distance c1 c2 = num_sqrt s"
              using sx sy sxy sz s by (simp add: calculate_distance_def)
            then show ?thesis using num_sqrt_cases [OF s(2)] by simp
          qed
        qed
      qed
    qed
  qed
qed


text \<open>
  The distances of the worked examples.
\<close>

lemma rnd_real_numeral [simp]:
  "numeral n < (2 ^ 53 :: int) \<Longrightarrow> rnd_real (numeral n) = numeral n"
  using rnd_real_int [of "numeral n"] by simp

lemma sqrt_9: "sqrt 9 = 3"
  by (rule real_sqrt_unique) simp_all

lemma sqrt_16: "sqrt 16 = 4"
  by (rule real_sqrt_unique) simp_all

lemma sqrt_25: "sqrt 25 = 5"
  by (rule real_sqrt_unique) simp_all

lemmas distance_eval =
  calculate_distance_def sq_diff_def num_sqrt_def fsub_def point_def to_float_minus
  sqrt_9 sqrt_16 sqrt_25

lemma example_distances:
  "calculate_distance (coordinates example_A) (coordinates example_B) = Inr (Fin 3)"
  "calculate_distance (coordinates example_B) (coordinates example_C) = Inr (Fin 4)"
  "calculate_distance (coordinates example_C) (coordinates example_B) = Inr (Fin 4)"
  "calculate_distance (coordinates example_A) (coordinates example_C) = Inr (Fin 5)"
  by (simp_all add: example_A_def example_B_def example_C_def distance_eval)

lemma example_finite:
  "finite_coords (coordinates example_A)" "finite_coords (coordinates example_B)"
  "finite_coords (coordinates example_C)"
  by (simp_all add: example_A_def example_B_def example_C_def point_def finite_coords_def)

lemma to_float_2_512: "to_float (2 ^ 512) = Fin (2 ^ 512)"
  by (rule to_float_pow2_fin) simp

lemma to_float_2_1024: "to_float (2 ^ 1024) = PInf"
  by (rule to_float_pow2_inf) simp

lemma fpow2_2_512:
  "fpow2 (Fin (2 ^ 512)) = Inl (OverflowError ''(34, 'Numerical result out of range')'')"
proof -
  have "((2::real) ^ 512) ^ 2 = 2 ^ 1024"
    by (simp only: power_mult [symmetric]) simp
  then show ?thesis by (simp only: fpow2.simps to_float_2_1024 pyfloat.case)
qed

lemma example_far_distance:
  "calculate_distance (coordinates example_A) (coordinates example_far)
     = Inl (OverflowError ''(34, 'Numerical result out of range')'')"
proof -
  have s: "fsub (Fin (2 ^ 512)) (Fin 0) = Fin (2 ^ 512)"
    by (simp only: fsub_def fneg.simps fadd.simps minus_zero add_0_right to_float_2_512)
  show ?thesis
    by (simp only: example_A_def example_far_def point_def system.simps coords.simps
        calculate_distance_def sq_diff_def num_sub.simps num_to_float.simps sum.case s
        num_pow2.simps fpow2_2_512)
qed

lemma example_blank_distance:
  "calculate_distance (coordinates example_blank) (coordinates example_blank) = Inr NaN"
  by (simp add: example_blank_def calculate_distance_def sq_diff_def num_sqrt_def fsub_def)



section \<open>Properties of the distances along the route\<close>

text \<open>
  Adding floats never raises, so the sum from the left of a sequence of floats always
  exists. The loop of \<^verbatim>\<open>calculate_route_distances\<close> keeps the invariant that the legs
  collected so far are those of the indices visited and that the running total is the
  sum from the left of their distances.
\<close>

lemma num_add_float:
  "acc = PInt 0 \<or> (\<exists>f. acc = PFloat f) \<Longrightarrow> \<exists>f. num_add acc (PFloat d) = Inr (PFloat f)"
  by auto

lemma sum_from_floats:
  "acc = PInt 0 \<or> (\<exists>f. acc = PFloat f) \<Longrightarrow> \<exists>t. sum_from acc (map PFloat ds) = Inr t"
proof (induction ds arbitrary: acc)
  case Nil
  then show ?case by simp
next
  case (Cons d ds)
  from num_add_float [OF Cons.prems] obtain f where f: "num_add acc (PFloat d) = Inr (PFloat f)"
    by blast
  from Cons.IH [of "PFloat f"] show ?case
    by (simp only: list.map sum_from.simps f sum.case) simp
qed

lemma left_sum_returns: "\<exists>t. left_sum ds = Inr t"
  unfolding left_sum_def by (rule sum_from_floats) simp

lemma left_sum_Nil [simp]: "left_sum [] = Inr (PInt 0)"
  by (simp add: left_sum_def)

lemma route_loop_all:
  assumes "\<forall>i\<in>set idx. \<exists>d. calculate_distance (coordinates (sys ! i)) (coordinates (sys ! (i + 1))) = Inr d"
  shows "\<exists>ds. length ds = length idx
           \<and> (\<forall>j<length idx. calculate_distance (coordinates (sys ! (idx ! j)))
                                 (coordinates (sys ! (idx ! j + 1))) = Inr (ds ! j))
           \<and> route_loop sys idx acc =
               (case sum_from (snd acc) (map PFloat ds) of
                  Inl e \<Rightarrow> Inl e
                | Inr t \<Rightarrow>
                    Inr (fst acc @ map (\<lambda>(i, d). (name (sys ! i), name (sys ! (i + 1)), d)) (zip idx ds), t))"
  using assms
proof (induction idx arbitrary: acc)
  case Nil
  then show ?case by simp
next
  case (Cons i idx)
  from Cons.prems obtain d where
    d: "calculate_distance (coordinates (sys ! i)) (coordinates (sys ! (i + 1))) = Inr d"
    by auto
  show ?case
  proof (cases "num_add (snd acc) (PFloat d)")
    case (Inl e)
    from Cons.IH [of acc] Cons.prems obtain ds where
      ds: "length ds = length idx"
        "\<forall>j<length idx. calculate_distance (coordinates (sys ! (idx ! j)))
                                 (coordinates (sys ! (idx ! j + 1))) = Inr (ds ! j)"
      by auto
    have "length (d # ds) = length (i # idx)" using ds by simp
    moreover have "\<forall>j<length (i # idx). calculate_distance (coordinates (sys ! ((i # idx) ! j)))
                                 (coordinates (sys ! ((i # idx) ! j + 1))) = Inr ((d # ds) ! j)"
      using ds d by (auto simp: nth_Cons split: nat.splits)
    moreover have "route_loop sys (i # idx) acc =
               (case sum_from (snd acc) (map PFloat (d # ds)) of
                  Inl e \<Rightarrow> Inl e
                | Inr t \<Rightarrow>
                    Inr (fst acc @ map (\<lambda>(i, d). (name (sys ! i), name (sys ! (i + 1)), d)) (zip (i # idx) (d # ds)), t))"
      using d Inl by (simp add: Let_def)
    ultimately show ?thesis by blast
  next
    case (Inr t')
    let ?acc' = "(fst acc @ [(name (sys ! i), name (sys ! (i + 1)), d)], t')"
    from Cons.IH [of ?acc'] Cons.prems obtain ds where
      ds: "length ds = length idx"
        "\<forall>j<length idx. calculate_distance (coordinates (sys ! (idx ! j)))
                                 (coordinates (sys ! (idx ! j + 1))) = Inr (ds ! j)"
        "route_loop sys idx ?acc' =
               (case sum_from (snd ?acc') (map PFloat ds) of
                  Inl e \<Rightarrow> Inl e
                | Inr t \<Rightarrow>
                    Inr (fst ?acc' @ map (\<lambda>(i, d). (name (sys ! i), name (sys ! (i + 1)), d)) (zip idx ds), t))"
      by auto
    have "length (d # ds) = length (i # idx)" using ds by simp
    moreover have "\<forall>j<length (i # idx). calculate_distance (coordinates (sys ! ((i # idx) ! j)))
                                 (coordinates (sys ! ((i # idx) ! j + 1))) = Inr ((d # ds) ! j)"
      using ds d by (auto simp: nth_Cons split: nat.splits)
    moreover have "route_loop sys (i # idx) acc =
               (case sum_from (snd acc) (map PFloat (d # ds)) of
                  Inl e \<Rightarrow> Inl e
                | Inr t \<Rightarrow>
                    Inr (fst acc @ map (\<lambda>(i, d). (name (sys ! i), name (sys ! (i + 1)), d)) (zip (i # idx) (d # ds)), t))"
      using d Inr ds(3) by (simp add: Let_def split: sum.splits)
    ultimately show ?thesis by blast
  qed
qed

lemma route_loop_fail:
  "\<exists>i\<in>set idx. \<exists>e. calculate_distance (coordinates (sys ! i)) (coordinates (sys ! (i + 1))) = Inl e
   \<Longrightarrow> \<exists>e. route_loop sys idx acc = Inl e"
proof (induction idx arbitrary: acc)
  case Nil
  then show ?case by simp
next
  case (Cons i idx)
  show ?case
  proof (cases "calculate_distance (coordinates (sys ! i)) (coordinates (sys ! (i + 1)))")
    case (Inl e)
    then show ?thesis by (simp add: Let_def)
  next
    case (Inr d)
    with Cons.prems have rest: "\<exists>i\<in>set idx. \<exists>e.
        calculate_distance (coordinates (sys ! i)) (coordinates (sys ! (i + 1))) = Inl e"
      by auto
    show ?thesis
    proof (cases "num_add (snd acc) (PFloat d)")
      case (Inl e)
      then show ?thesis using Inr by (simp add: Let_def)
    next
      case t: (Inr t')
      from Cons.IH [OF rest] show ?thesis using Inr t by (simp add: Let_def)
    qed
  qed
qed

lemma route_distances_all:
  assumes "\<forall>i<length sys - 1. \<exists>d.
      calculate_distance (coordinates (sys ! i)) (coordinates (sys ! (i + 1))) = Inr d"
  shows "\<exists>legs t. route_distances sys = Inr (legs, t)
           \<and> length legs = length sys - 1
           \<and> (\<forall>i<length sys - 1. \<exists>d.
                 calculate_distance (coordinates (sys ! i)) (coordinates (sys ! (i + 1))) = Inr d
                 \<and> legs ! i = (name (sys ! i), name (sys ! (i + 1)), d))
           \<and> left_sum (map (\<lambda>l. snd (snd l)) legs) = Inr t"
proof -
  let ?idx = "[0..<length sys - 1]"
  from assms have "\<forall>i\<in>set ?idx. \<exists>d.
      calculate_distance (coordinates (sys ! i)) (coordinates (sys ! (i + 1))) = Inr d"
    by simp
  from route_loop_all [OF this, of "([], PInt 0)"] obtain ds where
    R: "length ds = length ?idx
        \<and> (\<forall>j<length ?idx. calculate_distance (coordinates (sys ! (?idx ! j)))
                                 (coordinates (sys ! (?idx ! j + 1))) = Inr (ds ! j))
        \<and> route_loop sys ?idx ([], PInt 0) =
               (case sum_from (snd ([]::leg list, PInt 0)) (map PFloat ds) of
                  Inl e \<Rightarrow> Inl e
                | Inr t \<Rightarrow>
                    Inr (fst ([]::leg list, PInt 0) @ map (\<lambda>(i, d). (name (sys ! i), name (sys ! (i + 1)), d)) (zip ?idx ds), t))"
    by blast
  have len: "length ds = length sys - 1" using R by simp
  have each: "\<forall>j<length sys - 1. calculate_distance (coordinates (sys ! j))
                                 (coordinates (sys ! (j + 1))) = Inr (ds ! j)"
    using R by simp
  have run: "route_loop sys ?idx ([], PInt 0) =
               (case left_sum ds of
                  Inl e \<Rightarrow> Inl e
                | Inr t \<Rightarrow>
                    Inr (map (\<lambda>(i, d). (name (sys ! i), name (sys ! (i + 1)), d)) (zip ?idx ds), t))"
    using R by (simp add: left_sum_def cong: sum.case_cong)
  from left_sum_returns obtain t where t: "left_sum ds = Inr t" by blast
  let ?legs = "map (\<lambda>(i, d). (name (sys ! i), name (sys ! (i + 1)), d)) (zip ?idx ds)"
  have r: "route_distances sys = Inr (?legs, t)" using run t by (simp add: route_distances_def)
  have l: "length ?legs = length sys - 1" using len by simp
  have n: "\<forall>i<length sys - 1. ?legs ! i = (name (sys ! i), name (sys ! (i + 1)), ds ! i)"
    using len by simp
  have "map (\<lambda>l. snd (snd l)) ?legs = ds"
    using len by (intro nth_equalityI) simp_all
  then have s: "left_sum (map (\<lambda>l. snd (snd l)) ?legs) = Inr t" using t by simp
  show ?thesis using r l n each s by blast
qed

lemma quantum_2_53_1: "quantum 9007199254740993 = 2"
proof -
  have "\<lfloor>log 2 (9007199254740993 :: real)\<rfloor> = 53"
    by (rule floor_log2) (simp_all add: power_int_def)
  then show ?thesis by (simp add: quantum_def)
qed

lemma rnd_real_2_53_1: "rnd_real 9007199254740993 = 9007199254740992"
  by (simp add: rnd_real_def quantum_2_53_1 round_half_even_def Let_def)

lemma limit_above_2_54: "18014398509481984 < float_limit"
  using pow2_below_limit [of 54] by simp

lemma to_float_2_53_1: "to_float 9007199254740993 = Fin 9007199254740992"
  using limit_above_2_54 by (simp add: to_float_def rnd_real_2_53_1 Let_def)

lemma to_float_2_53: "to_float 9007199254740992 = Fin 9007199254740992"
  using to_float_pow2_fin [of 53] by simp

lemma to_float_2_53_2: "to_float 9007199254740994 = Fin 9007199254740994"
proof -
  have "rnd_real (real_of_int 4503599627370497 * 2 powi 1) = real_of_int 4503599627370497 * 2 powi 1"
    by (rule rnd_real_repr) simp_all
  then have "rnd_real 9007199254740994 = 9007199254740994" by simp
  then show ?thesis using limit_above_2_54 by (intro to_float_fin) simp_all
qed

text \<open>
  The sum from the left depends on the order of the items: 1 added twice to \<open>2\<^sup>5\<^sup>3\<close> is
  lost in the rounding each time, while \<open>2\<^sup>5\<^sup>3\<close> added to 1 + 1 gives \<open>2\<^sup>5\<^sup>3 + 2\<close>.
\<close>

lemma left_sum_order:
  "left_sum [Fin 9007199254740992, Fin 1, Fin 1] = Inr (PFloat (Fin 9007199254740992))"
  "left_sum [Fin 1, Fin 1, Fin 9007199254740992] = Inr (PFloat (Fin 9007199254740994))"
  by (simp_all add: left_sum_def to_float_2_53 to_float_2_53_1 to_float_2_53_2)

lemma example_systems:
  "get_systems example_heap (systems example_calc) = Inr [example_A, example_B, example_C]"
  by (simp add: get_systems_def lookup_def example_heap_def example_calc_def)



lemma example_route_distances:
  "calculate_route_distances example_calc example_heap
     = Inr ([(PStr ''A'', PStr ''B'', Fin 3), (PStr ''B'', PStr ''C'', Fin 4)], PFloat (Fin 7))"
proof -
  have n: "name example_A = PStr ''A''" "name example_B = PStr ''B''" "name example_C = PStr ''C''"
    by (simp_all add: example_A_def example_B_def example_C_def)
  have "route_distances [example_A, example_B, example_C]
     = Inr ([(PStr ''A'', PStr ''B'', Fin 3), (PStr ''B'', PStr ''C'', Fin 4)], PFloat (Fin 7))"
    by (simp add: route_distances_def upt_conv_Cons example_distances n Let_def)
  then show ?thesis using example_systems by (simp add: calculate_route_distances_def)
qed


section \<open>Properties of the optimizer\<close>

text \<open>
  The comparison \<^verbatim>\<open><\<close> of floats is transitive, and a total that is not below the best
  one is at least the best one or is NaN.
\<close>

lemma flt_trans: "flt a b \<Longrightarrow> flt b c \<Longrightarrow> flt a c"
  by (cases a; cases b; cases c) simp_all

lemma flt_not_flt: "flt p t \<Longrightarrow> \<not> flt u t \<Longrightarrow> flt p u \<or> u = NaN"
  by (cases p; cases t; cases u) simp_all

lemma flt_imp_fle: "flt a b \<Longrightarrow> fle a b"
  by (cases a; cases b) simp_all

lemma not_flt_imp_fle: "flt t c \<Longrightarrow> \<not> flt u t \<Longrightarrow> fle t u \<or> u = NaN"
  by (cases t; cases c; cases u) simp_all

lemma fle_refl: "flt t c \<Longrightarrow> fle t t"
  by (cases t; cases c) simp_all

lemma num_lt_trans: "num_lt a b \<Longrightarrow> num_lt b c \<Longrightarrow> num_lt a c"
  unfolding num_lt_def by (rule flt_trans)

lemma num_lt_not_lt: "num_lt p t \<Longrightarrow> \<not> num_lt u t \<Longrightarrow> num_lt p u \<or> exact u = NaN"
  unfolding num_lt_def by (rule flt_not_flt)

lemma num_lt_imp_le: "num_lt a b \<Longrightarrow> num_le a b"
  unfolding num_lt_def num_le_def by (rule flt_imp_fle)

lemma not_num_lt_imp_le: "num_lt t c \<Longrightarrow> \<not> num_lt u t \<Longrightarrow> num_le t u \<or> exact u = NaN"
  unfolding num_lt_def num_le_def by (rule not_flt_imp_fle)

lemma num_le_refl: "num_lt t c \<Longrightarrow> num_le t t"
  unfolding num_lt_def num_le_def by (rule fle_refl)

subsection \<open>leg distances\<close>

lemma leg_distances_Inr:
  "leg_distances r idx = Inr ds \<longleftrightarrow>
     length ds = length idx
     \<and> (\<forall>j<length idx. calculate_distance (coordinates (r ! (idx ! j)))
                            (coordinates (r ! (idx ! j + 1))) = Inr (ds ! j))"
proof (induction idx arbitrary: ds)
  case Nil
  then show ?case by auto
next
  case (Cons i idx)
  show ?case
  proof (cases ds)
    case Nil
    then show ?thesis by (auto split: sum.splits)
  next
    case (Cons d ds')
    have "(\<forall>j<Suc (length idx). P j) \<longleftrightarrow> P 0 \<and> (\<forall>j<length idx. P (Suc j))" for P
      by (metis less_Suc_eq_0_disj)
    then show ?thesis using Cons Cons.IH [of ds']
      by (auto split: sum.splits)
  qed
qed

lemma tour_distance_total:
  "tour_distance py_sum r = Inr t \<longleftrightarrow> has_total py_sum r t"
proof
  assume "tour_distance py_sum r = Inr t"
  then obtain ds where ds: "leg_distances r [0..<length r - 1] = Inr ds" "py_sum ds = Inr t"
    by (auto simp: tour_distance_def split: sum.splits)
  from ds(1) have "length ds = length r - 1
     \<and> (\<forall>j<length r - 1. calculate_distance (coordinates (r ! j))
                            (coordinates (r ! (j + 1))) = Inr (ds ! j))"
    by (simp add: leg_distances_Inr)
  with ds(2) show "has_total py_sum r t" unfolding has_total_def by blast
next
  assume "has_total py_sum r t"
  then obtain ds where ds: "length ds = length r - 1"
     "\<forall>i<length r - 1. calculate_distance (coordinates (r ! i)) (coordinates (r ! (i + 1))) = Inr (ds ! i)"
     "py_sum ds = Inr t"
    unfolding has_total_def by blast
  then have "leg_distances r [0..<length r - 1] = Inr ds"
    by (simp add: leg_distances_Inr)
  with ds(3) show "tour_distance py_sum r = Inr t" by (simp add: tour_distance_def)
qed

lemma tour_distance_fails:
  "(\<exists>e. tour_distance py_sum r = Inl e) \<longleftrightarrow> \<not> (\<exists>t. has_total py_sum r t)"
proof -
  have "(\<exists>e. tour_distance py_sum r = Inl e) \<longleftrightarrow> \<not> (\<exists>t. tour_distance py_sum r = Inr t)"
    by (cases "tour_distance py_sum r") simp_all
  then show ?thesis by (simp add: tour_distance_total)
qed

text \<open>
  \<open>permutations\<close> lists exactly the orderings of its argument. The loop of
  \<^verbatim>\<open>optimize_route\<close> keeps the first ordering whose total is below infinity and below
  the totals of all orderings before it, and not above the totals of the orderings
  after it that are numbers.
\<close>

lemma set_permutations: "set (permutations xs) = {p. mset p = mset xs}"
proof (induction xs rule: permutations.induct)
  case (1 xs)
  show ?case
  proof (cases "xs = []")
    case True
    then show ?thesis by (simp add: permutations.simps)
  next
    case False
    have rm: "mset (take i xs @ drop (Suc i) xs) + {#xs ! i#} = mset xs" if "i < length xs" for i
      using that by (metis add_mset_add_single id_take_nth_drop mset.simps(2) mset_append union_mset_add_mset_right)
    have IH: "set (permutations (take i xs @ drop (Suc i) xs)) = {p. mset p = mset (take i xs @ drop (Suc i) xs)}"
      if "i < length xs" for i
      using 1 [OF False, of i] that by simp
    have unf: "set (permutations xs) =
        (\<Union>i\<in>{0..<length xs}. (#) (xs ! i) ` set (permutations (take i xs @ drop (Suc i) xs)))"
      using False by (subst permutations.simps) simp
    show ?thesis
    proof (intro set_eqI iffI)
      fix p assume "p \<in> set (permutations xs)"
      then obtain i q where i: "i < length xs" and q: "q \<in> set (permutations (take i xs @ drop (Suc i) xs))"
        and p: "p = xs ! i # q"
        unfolding unf by auto
      from q IH [OF i] have "mset q = mset (take i xs @ drop (Suc i) xs)" by simp
      with rm [OF i] p show "p \<in> {p. mset p = mset xs}" by simp
    next
      fix p assume "p \<in> {p. mset p = mset xs}"
      then have mp: "mset p = mset xs" by simp
      with False obtain y q where p: "p = y # q" by (cases p) auto
      from mp p have "y \<in> set xs" by (metis list.set_intros(1) mset_eq_setD)
      then obtain i where i: "i < length xs" and y: "xs ! i = y" by (auto simp: in_set_conv_nth)
      from rm [OF i] mp p y have "add_mset y (mset q) = add_mset y (mset (take i xs @ drop (Suc i) xs))"
        by simp
      then have "mset q = mset (take i xs @ drop (Suc i) xs)" by (simp only: add_mset_add_mset_same_iff)
      with IH [OF i] have "q \<in> set (permutations (take i xs @ drop (Suc i) xs))" by simp
      with i y p show "p \<in> set (permutations xs)" unfolding unf by auto
    qed
  qed
qed

lemma permutations_nonempty: "permutations xs \<noteq> []"
proof -
  have "xs \<in> set (permutations xs)" by (simp add: set_permutations)
  then show ?thesis by auto
qed

lemma permutations_two: "permutations [a, b] = [[a, b], [b, a]]"
  by (simp add: permutations.simps [of "[a, b]"] permutations.simps [of "[a]"]
      permutations.simps [of "[b]"] permutations.simps [of "[]"] upt_conv_Cons)

lemma optimize_loop_append:
  "optimize_loop s f (ps @ qs) best =
     (case optimize_loop s f ps best of Inl e \<Rightarrow> Inl e | Inr b \<Rightarrow> optimize_loop s f qs b)"
  by (induction ps arbitrary: best) (simp_all add: Let_def split: sum.splits)

lemma optimize_loop_single:
  "tour_distance s (f # p) = Inr tp \<Longrightarrow>
   optimize_loop s f [p] best = (if num_lt tp (fst best) then Inr (tp, Some (f # p)) else Inr best)"
  by (simp add: Let_def)

lemma optimize_loop_snoc:
  assumes "tour_distance s (f # p) = Inr tp"
  shows "optimize_loop s f (ps @ [p]) best =
     (case optimize_loop s f ps best of
        Inl e \<Rightarrow> Inl e
      | Inr b \<Rightarrow> if num_lt tp (fst b) then Inr (tp, Some (f # p)) else Inr b)"
  by (simp only: optimize_loop_append optimize_loop_single [OF assms])

lemma optimize_loop_fail:
  "\<exists>p\<in>set ps. \<exists>e. tour_distance s (f # p) = Inl e \<Longrightarrow> \<exists>e. optimize_loop s f ps best = Inl e"
proof (induction ps arbitrary: best)
  case Nil
  then show ?case by simp
next
  case (Cons p ps)
  show ?case
  proof (cases "tour_distance s (f # p)")
    case (Inl e)
    then show ?thesis by (simp add: Let_def)
  next
    case (Inr t)
    with Cons.prems have "\<exists>p\<in>set ps. \<exists>e. tour_distance s (f # p) = Inl e" by auto
    from Cons.IH [OF this] show ?thesis using Inr by (simp add: Let_def)
  qed
qed

lemma optimize_loop_some:
  "optimize_loop s f ps (b0, r0) = Inr (t, Some r) \<Longrightarrow> r0 = Some r \<or> (\<exists>p\<in>set ps. r = f # p)"
proof (induction ps arbitrary: b0 r0)
  case Nil
  then show ?case by simp
next
  case (Cons p ps)
  from Cons.prems obtain tp where tp: "tour_distance s (f # p) = Inr tp"
    by (cases "tour_distance s (f # p)") (simp_all add: Let_def)
  show ?case
  proof (cases "num_lt tp b0")
    case True
    with Cons.prems tp have "optimize_loop s f ps (tp, Some (f # p)) = Inr (t, Some r)"
      by (simp add: Let_def)
    from Cons.IH [OF this] show ?thesis by auto
  next
    case False
    with Cons.prems tp have "optimize_loop s f ps (b0, r0) = Inr (t, Some r)"
      by (simp add: Let_def)
    from Cons.IH [OF this] show ?thesis by auto
  qed
qed

lemma optimize_loop_result:
  assumes "\<forall>p\<in>set ps. \<exists>t. tour_distance s (f # p) = Inr t"
  shows "(optimize_loop s f ps (PFloat PInf, None) = Inr (PFloat PInf, None)
          \<and> (\<forall>p\<in>set ps. \<forall>t. tour_distance s (f # p) = Inr t \<longrightarrow> \<not> num_lt t (PFloat PInf)))
       \<or> (\<exists>pre best post t.
             ps = pre @ best # post
           \<and> tour_distance s (f # best) = Inr t
           \<and> num_lt t (PFloat PInf)
           \<and> optimize_loop s f ps (PFloat PInf, None) = Inr (t, Some (f # best))
           \<and> (\<forall>q\<in>set pre. \<forall>u. tour_distance s (f # q) = Inr u \<longrightarrow> num_lt t u \<or> exact u = NaN)
           \<and> (\<forall>q\<in>set post. \<forall>u. tour_distance s (f # q) = Inr u \<longrightarrow> \<not> num_lt u t))"
  using assms
proof (induction ps rule: rev_induct)
  case Nil
  then show ?case by simp
next
  case (snoc p ps)
  from snoc.prems obtain tp where tp: "tour_distance s (f # p) = Inr tp" by auto
  from snoc.prems have "\<forall>p\<in>set ps. \<exists>t. tour_distance s (f # p) = Inr t" by simp
  from snoc.IH [OF this] show ?case
  proof (elim disjE conjE exE)
    assume none: "optimize_loop s f ps (PFloat PInf, None) = Inr (PFloat PInf, None)"
      and all: "\<forall>p\<in>set ps. \<forall>t. tour_distance s (f # p) = Inr t \<longrightarrow> \<not> num_lt t (PFloat PInf)"
    show ?thesis
    proof (cases "num_lt tp (PFloat PInf)")
      case True
      have run: "optimize_loop s f (ps @ [p]) (PFloat PInf, None) = Inr (tp, Some (f # p))"
        using none True by (simp add: optimize_loop_snoc [OF tp])
      have pre: "\<forall>q\<in>set ps. \<forall>u. tour_distance s (f # q) = Inr u \<longrightarrow> num_lt tp u \<or> exact u = NaN"
        using all num_lt_not_lt [OF True] by blast
      have "ps @ [p] = ps @ p # []" by simp
      with tp True run pre show ?thesis by (metis empty_iff list.set(1))
    next
      case False
      have run: "optimize_loop s f (ps @ [p]) (PFloat PInf, None) = Inr (PFloat PInf, None)"
        using none False by (simp add: optimize_loop_snoc [OF tp])
      have "\<forall>q\<in>set (ps @ [p]). \<forall>t. tour_distance s (f # q) = Inr t \<longrightarrow> \<not> num_lt t (PFloat PInf)"
        using all False tp by auto
      with run show ?thesis by blast
    qed
  next
    fix pre best post t
    assume ps: "ps = pre @ best # post"
      and tb: "tour_distance s (f # best) = Inr t"
      and fin: "num_lt t (PFloat PInf)"
      and res: "optimize_loop s f ps (PFloat PInf, None) = Inr (t, Some (f # best))"
      and pre: "\<forall>q\<in>set pre. \<forall>u. tour_distance s (f # q) = Inr u \<longrightarrow> num_lt t u \<or> exact u = NaN"
      and post: "\<forall>q\<in>set post. \<forall>u. tour_distance s (f # q) = Inr u \<longrightarrow> \<not> num_lt u t"
    show ?thesis
    proof (cases "num_lt tp t")
      case True
      have run: "optimize_loop s f (ps @ [p]) (PFloat PInf, None) = Inr (tp, Some (f # p))"
        using res True by (simp add: optimize_loop_snoc [OF tp])
      have fin': "num_lt tp (PFloat PInf)" using True fin by (rule num_lt_trans)
      have "num_lt tp u \<or> exact u = NaN" if q: "q \<in> set ps" and u: "tour_distance s (f # q) = Inr u" for q u
      proof -
        from q ps consider "q \<in> set pre" | "q = best" | "q \<in> set post" by auto
        then show ?thesis
        proof cases
          case 1
          with pre u have "num_lt t u \<or> exact u = NaN" by blast
          then show ?thesis using True num_lt_trans by blast
        next
          case 2
          with tb u True show ?thesis by simp
        next
          case 3
          with post u have "\<not> num_lt u t" by blast
          with True show ?thesis by (rule num_lt_not_lt)
        qed
      qed
      then have pre': "\<forall>q\<in>set ps. \<forall>u. tour_distance s (f # q) = Inr u \<longrightarrow> num_lt tp u \<or> exact u = NaN"
        by blast
      have "ps @ [p] = ps @ p # []" by simp
      with tp fin' run pre' show ?thesis by (metis empty_iff list.set(1))
    next
      case False
      have run: "optimize_loop s f (ps @ [p]) (PFloat PInf, None) = Inr (t, Some (f # best))"
        using res False by (simp add: optimize_loop_snoc [OF tp])
      have post': "\<forall>q\<in>set (post @ [p]). \<forall>u. tour_distance s (f # q) = Inr u \<longrightarrow> \<not> num_lt u t"
        using post False tp by auto
      have "ps @ [p] = pre @ best # (post @ [p])" using ps by simp
      with tb fin run pre post' show ?thesis by blast
    qed
  qed
qed

lemma get_systems_alloc:
  "get_systems (h @ [SysList xs]) (length h) = Inr xs"
  by (simp add: get_systems_def lookup_def)

lemma permutations_one: "permutations [a] = [[a]]"
  by (simp add: permutations.simps [of "[a]"] permutations.simps [of "[]"])

lemma tour_distance_unique:
  "has_total s r t \<Longrightarrow> has_total s r u \<Longrightarrow> t = u"
  by (metis Inr_inject tour_distance_total)


lemma example_tours:
  "tour_distance left_sum [example_A, example_B, example_C] = Inr (PFloat (Fin 7))"
  "tour_distance left_sum [example_A, example_C, example_B] = Inr (PFloat (Fin 9))"
  by (simp_all add: tour_distance_def upt_conv_Cons example_distances left_sum_def)

lemma example_optimize_route:
  "optimize_route left_sum example_calc example_heap
     = (Inr (Some 1), example_heap @ [SysList [example_A, example_B, example_C]])"
proof -
  have d: "drop 1 [example_A, example_B, example_C] = [example_B, example_C]" by simp
  have "optimize_loop left_sum example_A [[example_B, example_C], [example_C, example_B]]
          (PFloat PInf, None)
        = Inr (PFloat (Fin 7), Some [example_A, example_B, example_C])"
    by (simp add: example_tours num_lt_def)
  then show ?thesis
    using example_systems
    by (simp add: optimize_route_def permutations_two alloc_def example_heap_def)
qed

lemma example_permutations:
  "mset p = mset [example_B, example_C] \<longleftrightarrow> p = [example_B, example_C] \<or> p = [example_C, example_B]"
proof -
  have "mset p = mset [example_B, example_C] \<longleftrightarrow> p \<in> set (permutations [example_B, example_C])"
    by (simp add: set_permutations)
  then show ?thesis by (simp add: permutations_two)
qed


lemma to_float_2_1024_sum: "to_float (2 ^ 1023 + 2 ^ 1023) = PInf"
proof -
  have "(2::real) ^ 1023 + 2 ^ 1023 = 2 ^ 1024"
    by (simp only: mult_2 [symmetric] power_Suc [symmetric]) simp
  then show ?thesis by (simp only: to_float_2_1024)
qed

lemma example_wide_distance:
  "calculate_distance (coordinates example_west) (coordinates example_east) = Inr PInf"
proof -
  have s: "fsub (Fin (2 ^ 1023)) (Fin (- (2 ^ 1023))) = PInf"
    by (simp only: fsub_def fneg.simps fadd.simps minus_minus to_float_2_1024_sum)
  have z: "fsub (Fin 0) (Fin 0) = Fin 0" by (simp add: fsub_def)
  have a: "fadd PInf (Fin 0) = PInf" by simp
  show ?thesis
    by (simp only: example_west_def example_east_def point_def system.simps coords.simps
        calculate_distance_def sq_diff_def num_sub.simps num_to_float.simps sum.case s z
        num_pow2.simps fpow2.simps power2_eq_square mult_zero_left to_float_0 pyfloat.case
        num_add.simps a num_sqrt_def fsqrt.simps)
qed


section \<open>Properties of the jump estimate\<close>

text \<open>
  Claim C3, as stated: with a range that is zero or negative \<^verbatim>\<open>calculate_jumps\<close> returns a
  result that is not the number zero. It does not hold: with the range 0 the result is
  the very number returned for a distance of 0 and a range of 5.
\<close>

theorem calculate_jumps_no_range_counterexample:
  "\<not> (calculate_jumps (PFloat (Fin 7)) (PFloat (Fin 0))
        \<noteq> calculate_jumps (PFloat (Fin 0)) (PFloat (Fin 5)))"
  by (simp add: calculate_jumps_def num_le_def)

text \<open>
  Claim C3, amended. With a range that is zero or negative \<^verbatim>\<open>calculate_jumps\<close> returns the
  integer 0, whatever the distance.
\<close>

theorem calculate_jumps_no_range:
  "num_le r (PInt 0) \<Longrightarrow> calculate_jumps d r = Inr 0"
  by (simp add: calculate_jumps_def)

theorem calculate_jumps_no_range_witness:
  "num_le (PFloat (Fin 0)) (PInt 0) \<and> calculate_jumps (PFloat (Fin 7)) (PFloat (Fin 0)) = Inr 0"
proof -
  have h: "num_le (PFloat (Fin 0)) (PInt 0)" by (simp add: num_le_def)
  from calculate_jumps_no_range [OF h] h show ?thesis by simp
qed

text \<open>
  The quotient of the floats \<^verbatim>\<open>1.1\<close> and \<^verbatim>\<open>0.1\<close> is a little above 11 and rounds to the
  float 11.
\<close>

lemma example_quotient:
  "example_1_1 / example_0_1 = 39631676720860368 / 3602879701896397"
  by (simp add: example_1_1_def example_0_1_def)

lemma quantum_example_quotient:
  "quantum (39631676720860368 / 3602879701896397) = 1 / 562949953421312"
proof -
  have "\<lfloor>log 2 (39631676720860368 / 3602879701896397 :: real)\<rfloor> = 3"
    by (rule floor_log2) (simp_all add: power_int_def)
  then show ?thesis by (simp add: quantum_def power_int_def power_divide)
qed

lemma rnd_real_example_quotient:
  "rnd_real (39631676720860368 / 3602879701896397) = 11"
  by (simp add: rnd_real_def quantum_example_quotient round_half_even_def Let_def)

lemma to_float_example_quotient:
  "to_float (example_1_1 / example_0_1) = Fin 11"
  using limit_above_2_54
  by (simp add: example_quotient to_float_def rnd_real_example_quotient Let_def)

lemma example_jumps:
  "calculate_jumps (PFloat (Fin example_1_1)) (PFloat (Fin example_0_1)) = Inr 11"
proof -
  have p: "0 < example_0_1" by (simp add: example_0_1_def)
  then have le: "\<not> num_le (PFloat (Fin example_0_1)) (PInt 0)" by (simp add: num_le_def)
  have d: "num_div (PFloat (Fin example_1_1)) (PFloat (Fin example_0_1)) = Inr (Fin 11)"
    using p by (simp add: to_float_example_quotient)
  show ?thesis
    by (simp only: calculate_jumps_def le if_False d sum.case num_ceil.simps ceiling_numeral)
qed

lemma example_overflow_jumps:
  "calculate_jumps (PFloat (Fin (2 ^ 1023))) (PFloat (Fin (1 / 2)))
     = Inl (OverflowError ''cannot convert float infinity to integer'')"
proof -
  have q: "(2::real) ^ 1023 / (1 / 2) = 2 ^ 1024"
    by (simp only: divide_divide_eq_right div_by_1 mult.commute [of _ 2] power_Suc [symmetric]) simp
  have le: "\<not> num_le (PFloat (Fin (1 / 2))) (PInt 0)" by (simp add: num_le_def)
  have d: "num_div (PFloat (Fin (2 ^ 1023))) (PFloat (Fin (1 / 2))) = Inr PInf"
    by (simp only: num_div.simps num_to_float.simps sum.case fdiv.simps q to_float_2_1024) simp
  show ?thesis
    by (simp only: calculate_jumps_def le if_False d sum.case num_ceil.simps)
qed

text \<open>
  Claim C4, as stated: for every finite distance \<open>d \<ge> 0\<close> and every range \<open>r > 0\<close>
  \<^verbatim>\<open>calculate_jumps\<close> returns exactly the ceiling of \<open>d / r\<close>. It does not hold. For the
  floats \<^verbatim>\<open>1.1\<close> and \<^verbatim>\<open>0.1\<close> the call returns 11 while the ceiling of the quotient of
  the two values is 12. And for the distance \<open>2\<^sup>1\<^sup>0\<^sup>2\<^sup>3\<close> and the range \<open>1/2\<close> the call
  returns nothing: the float quotient is infinity and \<^verbatim>\<open>math.ceil\<close> raises
  \<^verbatim>\<open>OverflowError\<close>.
\<close>

theorem calculate_jumps_ceiling_counterexample:
  "calculate_jumps (PFloat (Fin example_1_1)) (PFloat (Fin example_0_1)) = Inr 11
   \<and> \<lceil>example_1_1 / example_0_1\<rceil> = 12
   \<and> calculate_jumps (PFloat (Fin (2 ^ 1023))) (PFloat (Fin (1 / 2)))
       = Inl (OverflowError ''cannot convert float infinity to integer'')"
proof -
  have "\<lceil>example_1_1 / example_0_1\<rceil> = 12"
    by (simp add: example_quotient ceiling_eq_iff)
  then show ?thesis using example_jumps example_overflow_jumps by simp
qed

text \<open>
  Claim C4, amended. For a float distance \<open>a \<ge> 0\<close> and a float range \<open>b > 0\<close>
  \<^verbatim>\<open>calculate_jumps\<close> returns the ceiling of the float quotient, which is \<open>a / b\<close> rounded
  to the nearest binary64 value, when that quotient is finite; it raises
  \<^verbatim>\<open>OverflowError\<close> when the rounded quotient overflows; and it returns 0 for the
  distance 0.
\<close>

theorem calculate_jumps_ceiling:
  assumes "0 \<le> a" and "0 < b"
  shows "(rnd_real (a / b) < float_limit \<longrightarrow>
            calculate_jumps (PFloat (Fin a)) (PFloat (Fin b)) = Inr \<lceil>rnd_real (a / b)\<rceil>)
       \<and> (float_limit \<le> rnd_real (a / b) \<longrightarrow>
            calculate_jumps (PFloat (Fin a)) (PFloat (Fin b))
              = Inl (OverflowError ''cannot convert float infinity to integer''))
       \<and> calculate_jumps (PFloat (Fin 0)) (PFloat (Fin b)) = Inr 0"
proof -
  have "0 \<le> a / b" using assms by simp
  then have "0 \<le> rnd_real (a / b)" by (rule rnd_real_nonneg)
  then have "\<not> rnd_real (a / b) \<le> - float_limit" using float_limit_pos by linarith
  then show ?thesis
    using assms float_limit_pos
    by (auto simp: calculate_jumps_def num_le_def to_float_def Let_def)
qed

lemma rnd_real_7_4: "rnd_real (7 / 4) = 7 / 4"
  using rnd_real_repr [of 7 "- 2"] by (simp add: power_int_def power2_eq_square)

theorem calculate_jumps_ceiling_witness:
  "(0::real) \<le> 7 \<and> (0::real) < 4 \<and> rnd_real (7 / 4) < float_limit
   \<and> calculate_jumps (PFloat (Fin 7)) (PFloat (Fin 4)) = Inr 2"
proof -
  have l: "rnd_real (7 / 4) < float_limit"
    using limit_above_2_54 by (simp add: rnd_real_7_4)
  have c: "\<lceil>7 / 4 :: real\<rceil> = 2" by (simp add: ceiling_eq_iff)
  from calculate_jumps_ceiling [of 7 4] l c show ?thesis by (simp add: rnd_real_7_4)
qed

section \<open>The optimizer and the store\<close>

lemma example_blank_systems:
  "get_systems example_heap_blank (systems example_calc) = Inr [example_A, example_blank]"
  by (simp add: get_systems_def lookup_def example_heap_blank_def example_calc_def)

lemma example_A_blank_distance:
  "calculate_distance (coordinates example_A) (coordinates example_blank) = Inr NaN"
  by (simp add: example_A_def example_blank_def point_def calculate_distance_def sq_diff_def
        num_sqrt_def fsub_def)

lemma example_blank_tour:
  "tour_distance left_sum [example_A, example_blank] = Inr (PFloat NaN)"
  by (simp add: tour_distance_def example_A_blank_distance left_sum_def)




section \<open>Properties of the route history\<close>

text \<open>
  Writing a list of systems over a list of systems changes the names of no entry: a
  reference that holds systems is not the reference of a list of names.
\<close>

lemma lookup_store_SysList:
  "lookup h a = Some (SysList xs) \<Longrightarrow>
   entry_names (store h a (SysList ys)) e = entry_names h e"
  by (auto simp: entry_names_def lookup_def store_def nth_list_update split: if_splits)

text \<open>
  Claim C10. \<^verbatim>\<open>log_route\<close> appends exactly one entry to the history. The entry carries
  the clock reading and the distance passed, and its names are the names of the route
  at the time of the call, held in a list object that did not exist before. The call
  changes no other object, so the names of the older entries stay. Whatever is written
  later into a list of systems, the passed route and the live route among them, the
  names every entry shows stay the same.
\<close>

theorem log_route_snapshot:
  assumes sys: "get_systems h r = Inr route"
  shows "\<exists>e h'.
           log_route now r td self h
             = Inr (self\<lparr>route_log := route_log self @ [e]\<rparr>, h')
         \<and> timestamp e = now
         \<and> distance e = td
         \<and> lookup h (entry_systems e) = None
         \<and> entry_names h' e = Some (map name route)
         \<and> (\<forall>a v. lookup h a = Some v \<longrightarrow> lookup h' a = Some v)
         \<and> (\<forall>e'. entry_names h' e' = entry_names h e' \<or> entry_systems e' = entry_systems e)
         \<and> (\<forall>a xs ys e'. lookup h' a = Some (SysList xs)
               \<longrightarrow> entry_names (store h' a (SysList ys)) e' = entry_names h' e')"
proof -
  let ?e = "\<lparr>timestamp = now, entry_systems = length h, distance = td\<rparr>"
  let ?h' = "h @ [NameList (map name route)]"
  have run: "log_route now r td self h = Inr (self\<lparr>route_log := route_log self @ [?e]\<rparr>, ?h')"
    using sys by (simp add: log_route_def alloc_def)
  have fresh: "lookup h (entry_systems ?e) = None" by (simp add: lookup_def)
  have names: "entry_names ?h' ?e = Some (map name route)"
    by (simp add: entry_names_def lookup_def)
  have frame: "\<forall>a v. lookup h a = Some v \<longrightarrow> lookup ?h' a = Some v"
    by (auto simp: lookup_def nth_append split: if_splits)
  have old: "\<forall>e'. entry_names ?h' e' = entry_names h e' \<or> entry_systems e' = entry_systems ?e"
    by (auto simp: entry_names_def lookup_def nth_append)
  have later: "\<forall>a xs ys e'. lookup ?h' a = Some (SysList xs)
               \<longrightarrow> entry_names (store ?h' a (SysList ys)) e' = entry_names ?h' e'"
    using lookup_store_SysList by blast
  show ?thesis
    apply (rule exI [of _ ?e])
    apply (rule exI [of _ ?h'])
    using run fresh names frame old later by simp
qed

theorem log_route_snapshot_witness:
  "get_systems example_heap 0 = Inr [example_A, example_B, example_C]
   \<and> (\<exists>e h'. log_route ''2024-01-01 12:00:00'' 0 (PFloat (Fin 7)) example_calc example_heap
                 = Inr (example_calc\<lparr>route_log := route_log example_calc @ [e]\<rparr>, h')
            \<and> distance e = PFloat (Fin 7)
            \<and> entry_names h' e = Some [PStr ''A'', PStr ''B'', PStr ''C'']
            \<and> entry_names (store h' 0 (SysList [])) e = Some [PStr ''A'', PStr ''B'', PStr ''C''])"
proof -
  have s: "get_systems example_heap 0 = Inr [example_A, example_B, example_C]"
    using example_systems by (simp add: example_calc_def)
  have n: "map name [example_A, example_B, example_C] = [PStr ''A'', PStr ''B'', PStr ''C'']"
    by (simp add: example_A_def example_B_def example_C_def)
  from log_route_snapshot [OF s, of "''2024-01-01 12:00:00''" "PFloat (Fin 7)" example_calc]
  obtain e h' where
    run: "log_route ''2024-01-01 12:00:00'' 0 (PFloat (Fin 7)) example_calc example_heap
            = Inr (example_calc\<lparr>route_log := route_log example_calc @ [e]\<rparr>, h')" and
    dist: "distance e = PFloat (Fin 7)" and
    names: "entry_names h' e = Some (map name [example_A, example_B, example_C])" and
    frame: "\<forall>a v. lookup example_heap a = Some v \<longrightarrow> lookup h' a = Some v" and
    later: "\<forall>a xs ys e'. lookup h' a = Some (SysList xs)
               \<longrightarrow> entry_names (store h' a (SysList ys)) e' = entry_names h' e'"
    by blast
  have "lookup example_heap 0 = Some (SysList [example_A, example_B, example_C])"
    by (simp add: lookup_def example_heap_def)
  with frame have "lookup h' 0 = Some (SysList [example_A, example_B, example_C])" by blast
  with later have "entry_names (store h' 0 (SysList [])) e = entry_names h' e" by blast
  with run dist names n s show ?thesis by auto
qed

section \<open>Properties of the import\<close>

text \<open>
  The loop over the rows ends with the exception of the first row that cannot be
  turned into a system, and a field under \<^verbatim>\<open>X\<close>, \<^verbatim>\<open>Y\<close> or \<^verbatim>\<open>Z\<close> on which \<^verbatim>\<open>float\<close>
  raises makes such a row. A loop that ends normally has added one system for each
  row, in the order of the rows. Whenever the import reports a failure, the store is
  the one it started from.
\<close>

lemma str_nat_1: "str_nat (Suc 0) = ''1''"
  by (simp add: str_nat.simps)

lemma import_rows_first_failure:
  "\<forall>r\<in>set pre. \<exists>s. import_row p r = Inr s \<Longrightarrow> import_row p row = Inl e \<Longrightarrow>
   import_rows p (pre @ row # post) acc = Inl e"
  by (induction pre arbitrary: acc) auto

lemma import_rows_fails:
  "row \<in> set rs \<Longrightarrow> import_row p row = Inl e \<Longrightarrow> \<exists>e'. import_rows p rs acc = Inl e'"
  by (induction rs arbitrary: acc) (auto split: sum.splits)

lemma import_row_fails:
  assumes "k \<in> {''X'', ''Y'', ''Z''}" and "row k = Some v" and "py_float p v = Inl e"
  shows "\<exists>e'. import_row p row = Inl e'"
  using assms
  by (auto simp: import_row_def float_field_def row_get_def split: sum.splits option.splits)

lemma import_rows_nth:
  "import_rows p rs acc = Inr out \<Longrightarrow>
   \<exists>new. out = acc @ new \<and> length new = length rs
        \<and> (\<forall>i<length rs. import_row p (rs ! i) = Inr (new ! i))"
proof (induction rs arbitrary: acc)
  case Nil
  then show ?case by simp
next
  case (Cons row rs)
  then obtain s where s: "import_row p row = Inr s" and r: "import_rows p rs (acc @ [s]) = Inr out"
    by (auto split: sum.splits)
  from Cons.IH [OF r] obtain new where
    n: "out = (acc @ [s]) @ new" "length new = length rs"
       "\<forall>i<length rs. import_row p (rs ! i) = Inr (new ! i)"
    by blast
  have "\<forall>i<length (row # rs). import_row p ((row # rs) ! i) = Inr ((s # new) ! i)"
    using s n(3) by (auto simp: nth_Cons split: nat.splits)
  with n show ?case
    by (intro exI [of _ "s # new"]) simp
qed

lemma import_rows_all:
  "length ss = length rs \<Longrightarrow> \<forall>i<length rs. import_row p (rs ! i) = Inr (ss ! i) \<Longrightarrow>
   import_rows p rs acc = Inr (acc @ ss)"
proof (induction rs arbitrary: acc ss)
  case Nil
  then show ?case by simp
next
  case (Cons row rs)
  then obtain s ss' where ss: "ss = s # ss'" by (cases ss) auto
  from Cons.prems ss have s: "import_row p row = Inr s" by auto
  from Cons.prems ss have "\<forall>i<length rs. import_row p (rs ! i) = Inr (ss' ! i)" by auto
  moreover from Cons.prems ss have "length ss' = length rs" by simp
  ultimately have "import_rows p rs (acc @ [s]) = Inr ((acc @ [s]) @ ss')" by (rule Cons.IH [rotated])
  with s ss show ?case by simp
qed

lemma import_row_Inr:
  assumes "import_row p row = Inr s"
  shows "\<exists>n cx cy cz vx vy vz.
           row ''System Name'' = Some n \<and> row ''X'' = Some cx \<and> row ''Y'' = Some cy
         \<and> row ''Z'' = Some cz
         \<and> py_float p cx = Inr vx \<and> py_float p cy = Inr vy \<and> py_float p cz = Inr vz
         \<and> s = \<lparr>name = n, coordinates = \<lparr>x = PFloat vx, y = PFloat vy, z = PFloat vz\<rparr>\<rparr>"
  using assms
  by (auto simp: import_row_def float_field_def row_get_def split: sum.splits option.splits)

lemma import_failure_keeps_store:
  "import_route_from_csv read_csv str_to_float file_content self h = ((False, msg), h') \<Longrightarrow> h' = h"
  by (auto simp: import_route_from_csv_def split: sum.splits if_splits)

lemma import_cases:
  "(\<exists>msg. import_route_from_csv read_csv str_to_float file_content self h = ((False, msg), h))
   \<or> (\<exists>msg h'. import_route_from_csv read_csv str_to_float file_content self h = ((True, msg), h'))"
  by (auto simp: import_route_from_csv_def split: sum.splits if_splits)

lemma example_frame_blank:
  "example_read_csv example_csv_blank
     = Inr \<lparr>columns = [''System Name'', ''X'', ''Y'', ''Z''],
            rows = [[''System Name'' \<mapsto> PStr ''Sol'', ''X'' \<mapsto> PNum (PFloat NaN),
                     ''Y'' \<mapsto> PNum (PInt 0), ''Z'' \<mapsto> PNum (PInt 0)]]\<rparr>"
  by (simp add: example_read_csv_def example_csv_def example_csv_no_z_def example_csv_text_def
        example_csv_blank_def)



lemma example_frame_no_z:
  "example_read_csv example_csv_no_z
     = Inr \<lparr>columns = [''System Name'', ''X'', ''Y''],
            rows = [[''System Name'' \<mapsto> PStr ''Sol'', ''X'' \<mapsto> PNum (PInt 0),
                     ''Y'' \<mapsto> PNum (PInt 0)]]\<rparr>"
  by (simp add: example_read_csv_def example_csv_def example_csv_no_z_def)

lemma example_frame_text:
  "example_read_csv example_csv_text
     = Inr \<lparr>columns = [''System Name'', ''X'', ''Y'', ''Z''],
            rows = [[''System Name'' \<mapsto> PStr ''Sol'', ''X'' \<mapsto> PStr ''abc'',
                     ''Y'' \<mapsto> PNum (PInt 0), ''Z'' \<mapsto> PNum (PInt 0)]]\<rparr>"
  by (simp add: example_read_csv_def example_csv_def example_csv_no_z_def example_csv_text_def)

lemma example_float_abc:
  "py_float example_str_to_float (PStr ''abc'')
     = Inl (ValueError (''could not convert string to float: '' @ [CHR 0x27] @ ''abc'' @ [CHR 0x27]))"
  by (simp add: example_str_to_float_def)


lemma example_frame:
  "example_read_csv example_csv
     = Inr \<lparr>columns = [''System Name'', ''X'', ''Y'', ''Z''],
            rows = [[''System Name'' \<mapsto> PStr ''Sol'', ''X'' \<mapsto> PNum (PInt 0),
                     ''Y'' \<mapsto> PNum (PInt 0), ''Z'' \<mapsto> PNum (PInt 0)]]\<rparr>"
  by (simp add: example_read_csv_def)

lemma example_import:
  "import_route_from_csv example_read_csv example_str_to_float example_csv example_calc example_heap
   = ((True, ''Successfully imported 1 systems''),
      [SysList [example_A, example_B, example_C,
                \<lparr>name = PStr ''Sol'', coordinates = point 0 0 0\<rparr>]])"
  by (simp add: import_route_from_csv_def example_frame required_columns_def
       import_row_def row_get_def float_field_def get_systems_def lookup_def example_calc_def
       example_heap_def store_def str_nat_1 point_def)

text \<open>
  Claim C6, as stated: the live route is the same after a successful import as before
  it. It does not hold: importing the one-row example file succeeds and the live route
  is no longer the one the calculator had.
\<close>

theorem import_route_from_csv_live_route_counterexample:
  "fst (fst (import_route_from_csv example_read_csv example_str_to_float example_csv
               example_calc example_heap)) = True
   \<and> get_systems (snd (import_route_from_csv example_read_csv example_str_to_float example_csv
                         example_calc example_heap)) (systems example_calc)
       \<noteq> get_systems example_heap (systems example_calc)"
  by (simp only: example_import)
     (simp add: get_systems_def lookup_def example_calc_def example_heap_def)

text \<open>
  Claim C6, amended. A successful \<^verbatim>\<open>import_route_from_csv\<close> appends the systems decoded
  from the rows to the end of the live route: one system for each row, in the order of
  the rows, the system of row \<open>i\<close> having as its name the cell of the row under
  \<^verbatim>\<open>System Name\<close> and as its coordinates \<^verbatim>\<open>float\<close> of the cells under \<^verbatim>\<open>X\<close>, \<^verbatim>\<open>Y\<close> and
  \<^verbatim>\<open>Z\<close>. The systems that were there stay as the beginning of the live route, no other
  list object changes, and what is returned is only the flag \<^verbatim>\<open>True\<close> with a message
  that gives the number of rows. The live route is the same as before exactly when the
  frame has no rows.
\<close>

theorem import_route_from_csv_extends:
  assumes ok: "import_route_from_csv read_csv str_to_float file_content self h = ((True, msg), h')"
  shows "\<exists>csv_data old imported.
           read_csv file_content = Inr csv_data
         \<and> get_systems h (systems self) = Inr old
         \<and> length imported = length (rows csv_data)
         \<and> (\<forall>i<length (rows csv_data).
               import_row str_to_float (rows csv_data ! i) = Inr (imported ! i)
             \<and> (\<exists>n cx cy cz vx vy vz.
                   (rows csv_data ! i) ''System Name'' = Some n
                 \<and> (rows csv_data ! i) ''X'' = Some cx
                 \<and> (rows csv_data ! i) ''Y'' = Some cy
                 \<and> (rows csv_data ! i) ''Z'' = Some cz
                 \<and> py_float str_to_float cx = Inr vx
                 \<and> py_float str_to_float cy = Inr vy
                 \<and> py_float str_to_float cz = Inr vz
                 \<and> imported ! i
                     = \<lparr>name = n, coordinates = \<lparr>x = PFloat vx, y = PFloat vy, z = PFloat vz\<rparr>\<rparr>))
         \<and> get_systems h' (systems self) = Inr (old @ imported)
         \<and> (\<forall>a. a \<noteq> systems self \<longrightarrow> lookup h' a = lookup h a)
         \<and> msg = ''Successfully imported '' @ str_nat (length (rows csv_data)) @ '' systems''
         \<and> (get_systems h' (systems self) = get_systems h (systems self)
              \<longleftrightarrow> rows csv_data = [])"
proof -
  from ok obtain csv_data where f: "read_csv file_content = Inr csv_data"
    by (auto simp: import_route_from_csv_def split: sum.splits)
  from ok f obtain imported where i: "import_rows str_to_float (rows csv_data) [] = Inr imported"
    by (auto simp: import_route_from_csv_def split: sum.splits if_splits)
  from ok f i obtain old where o: "get_systems h (systems self) = Inr old"
    by (auto simp: import_route_from_csv_def split: sum.splits if_splits)
  from ok f i o have h': "h' = store h (systems self) (SysList (old @ imported))"
    and m: "msg = ''Successfully imported '' @ str_nat (length imported) @ '' systems''"
    by (auto simp: import_route_from_csv_def split: sum.splits if_splits)
  from import_rows_nth [OF i] have l: "length imported = length (rows csv_data)"
    and nth: "\<forall>i<length (rows csv_data).
                import_row str_to_float (rows csv_data ! i) = Inr (imported ! i)"
    by auto
  have cells: "\<forall>i<length (rows csv_data).
               import_row str_to_float (rows csv_data ! i) = Inr (imported ! i)
             \<and> (\<exists>n cx cy cz vx vy vz.
                   (rows csv_data ! i) ''System Name'' = Some n
                 \<and> (rows csv_data ! i) ''X'' = Some cx
                 \<and> (rows csv_data ! i) ''Y'' = Some cy
                 \<and> (rows csv_data ! i) ''Z'' = Some cz
                 \<and> py_float str_to_float cx = Inr vx
                 \<and> py_float str_to_float cy = Inr vy
                 \<and> py_float str_to_float cz = Inr vz
                 \<and> imported ! i
                     = \<lparr>name = n, coordinates = \<lparr>x = PFloat vx, y = PFloat vy, z = PFloat vz\<rparr>\<rparr>)"
  proof (intro allI impI conjI)
    fix j assume j: "j < length (rows csv_data)"
    with nth show r: "import_row str_to_float (rows csv_data ! j) = Inr (imported ! j)" by simp
    from import_row_Inr [OF r]
    show "\<exists>n cx cy cz vx vy vz.
                   (rows csv_data ! j) ''System Name'' = Some n
                 \<and> (rows csv_data ! j) ''X'' = Some cx
                 \<and> (rows csv_data ! j) ''Y'' = Some cy
                 \<and> (rows csv_data ! j) ''Z'' = Some cz
                 \<and> py_float str_to_float cx = Inr vx
                 \<and> py_float str_to_float cy = Inr vy
                 \<and> py_float str_to_float cz = Inr vz
                 \<and> imported ! j
                     = \<lparr>name = n, coordinates = \<lparr>x = PFloat vx, y = PFloat vy, z = PFloat vz\<rparr>\<rparr>" .
  qed
  from o have live: "systems self < length h"
    by (auto simp: get_systems_def lookup_def split: if_splits)
  have g: "get_systems h' (systems self) = Inr (old @ imported)"
    using h' live by (simp add: get_systems_def lookup_def store_def)
  have fr: "\<forall>a. a \<noteq> systems self \<longrightarrow> lookup h' a = lookup h a"
    using h' by (simp add: lookup_def store_def)
  have m': "msg = ''Successfully imported '' @ str_nat (length (rows csv_data)) @ '' systems''"
    using m l by simp
  have same: "get_systems h' (systems self) = get_systems h (systems self)
              \<longleftrightarrow> rows csv_data = []"
    using g o l by auto
  show ?thesis
    apply (rule exI [of _ csv_data])
    apply (rule exI [of _ old])
    apply (rule exI [of _ imported])
    using f o l cells g fr m' same by (intro conjI)
qed

theorem import_route_from_csv_extends_witness:
  "import_route_from_csv example_read_csv example_str_to_float example_csv example_calc example_heap
   = ((True, ''Successfully imported 1 systems''),
      [SysList [example_A, example_B, example_C,
                \<lparr>name = PStr ''Sol'', coordinates = point 0 0 0\<rparr>]])
   \<and> (\<exists>old imported.
         get_systems example_heap (systems example_calc) = Inr old
       \<and> length imported = 1
       \<and> get_systems [SysList [example_A, example_B, example_C,
                \<lparr>name = PStr ''Sol'', coordinates = point 0 0 0\<rparr>]] (systems example_calc)
           = Inr (old @ imported))"
proof -
  from import_route_from_csv_extends [OF example_import]
  obtain csv_data old imported where
    f: "example_read_csv example_csv = Inr csv_data" and
    o: "get_systems example_heap (systems example_calc) = Inr old" and
    l: "length imported = length (rows csv_data)" and
    g: "get_systems [SysList [example_A, example_B, example_C,
                \<lparr>name = PStr ''Sol'', coordinates = point 0 0 0\<rparr>]] (systems example_calc)
           = Inr (old @ imported)"
    by blast
  from f have "length (rows csv_data) = 1" by (auto simp: example_frame)
  with l have "length imported = 1" by simp
  with o g example_import show ?thesis by blast
qed

end
